theory Spec2Isabelle
  imports Main "HOL-Library.Word" "HOL-Library.Product_Lexorder" "HOL-Library.AList"
begin

unbundle bit_operations_syntax

section \<open>Python strings and integers\<close>

text \<open>
  Text is modelled as \<^typ>\<open>string\<close>, one \<^typ>\<open>char\<close> per character: the code
  points up to U+00FF. \<open>str.strip\<close> and \<open>int\<close> are modelled for all of them;
  \<open>str.upper\<close> is modelled on ASCII text only, where it maps the letters a to z and
  keeps the length, and a statement that depends on what upper-casing does says so by
  asking for ASCII text. Python integers are unbounded, hence \<^typ>\<open>int\<close>.
\<close>

definition is_space :: "char \<Rightarrow> bool" where
  \<comment> \<open>the characters up to U+00FF for which \<open>str.isspace\<close> holds, the ones
      \<open>str.strip()\<close> removes\<close>
  "is_space c = (c \<in> set [CHR 0x09, CHR 0x0A, CHR 0x0B, CHR 0x0C, CHR 0x0D,
                            CHR 0x1C, CHR 0x1D, CHR 0x1E, CHR 0x1F, CHR 0x20,
                            CHR 0x85, CHR 0xA0])"

definition strip :: "string \<Rightarrow> string" where
  "strip s = rev (dropWhile is_space (rev (dropWhile is_space s)))"

definition upper_char :: "char \<Rightarrow> char" where
  "upper_char c =
     (case map_of (zip ''abcdefghijklmnopqrstuvwxyz'' ''ABCDEFGHIJKLMNOPQRSTUVWXYZ'') c of
        Some u \<Rightarrow> u
      | None \<Rightarrow> c)"

definition upper :: "string \<Rightarrow> string" where
  "upper s = map upper_char s"

definition startswith :: "string \<Rightarrow> string \<Rightarrow> bool" where
  "startswith s p = (take (length p) s = p)"

fun py_split :: "char \<Rightarrow> string \<Rightarrow> string list" where
  \<comment> \<open>\<open>s.split(sep)\<close> for a one-character separator: always at least one part\<close>
  "py_split sep [] = [[]]"
| "py_split sep (c # cs) =
     (if c = sep then [] # py_split sep cs
      else (case py_split sep cs of
              p # ps \<Rightarrow> (c # p) # ps
            | [] \<Rightarrow> [[c]]))"

definition join :: "string \<Rightarrow> string list \<Rightarrow> string" where
  \<comment> \<open>\<open>sep.join(xs)\<close>\<close>
  "join sep xs = (case xs of [] \<Rightarrow> [] | y # ys \<Rightarrow> y @ concat (map (\<lambda>z. sep @ z) ys))"

definition digit_char :: "nat \<Rightarrow> char" where
  "digit_char d = ''0123456789'' ! (d mod 10)"

fun digits_of :: "nat \<Rightarrow> string" where
  "digits_of n = (if n < 10 then [digit_char n] else digits_of (n div 10) @ [digit_char (n mod 10)])"

declare digits_of.simps [simp del]

definition str_int :: "int \<Rightarrow> string" where
  \<comment> \<open>\<open>str(i)\<close>, also what an f-string and \<open>csv.writer\<close> print for an integer\<close>
  "str_int i = (if i < 0 then CHR ''-'' # digits_of (nat (- i)) else digits_of (nat i))"

fun bits_of :: "nat \<Rightarrow> string" where
  "bits_of n = (if n < 2 then [digit_char n] else bits_of (n div 2) @ [digit_char (n mod 2)])"

declare bits_of.simps [simp del]

definition zfill :: "nat \<Rightarrow> string \<Rightarrow> string" where
  "zfill w s = replicate (w - length s) (CHR ''0'') @ s"

definition format_08b :: "int \<Rightarrow> string" where
  \<comment> \<open>\<open>f"{code:08b}"\<close>: binary, zero-padded to width 8, the sign counted in the width\<close>
  "format_08b i = (if i < 0 then CHR ''-'' # zfill 7 (bits_of (nat (- i))) else zfill 8 (bits_of (nat i)))"

definition is_digit :: "char \<Rightarrow> bool" where
  "is_digit c = (c \<in> set ''0123456789'')"

definition digit_val :: "char \<Rightarrow> nat" where
  "digit_val c =
     (case map_of (zip ''0123456789'' [0, 1, 2, 3, 4, 5, 6, 7, 8, 9]) c of
        Some d \<Rightarrow> d
      | None \<Rightarrow> 0)"

fun py_digits :: "nat \<Rightarrow> string \<Rightarrow> nat option" where
  \<comment> \<open>the rest of a decimal literal after its first digit; single underscores may separate digits\<close>
  "py_digits acc [] = Some acc"
| "py_digits acc [c] = (if is_digit c then Some (10 * acc + digit_val c) else None)"
| "py_digits acc (c # d # ds) =
     (if is_digit c then py_digits (10 * acc + digit_val c) (d # ds)
      else if c = CHR ''_'' \<and> is_digit d then py_digits (10 * acc + digit_val d) ds
      else None)"

definition py_nat :: "string \<Rightarrow> nat option" where
  "py_nat s = (case s of [] \<Rightarrow> None
               | c # cs \<Rightarrow> if is_digit c then py_digits (digit_val c) cs else None)"

definition py_int :: "string \<Rightarrow> int option" where
  \<comment> \<open>\<open>int(s)\<close>: \<open>None\<close> where Python raises \<open>ValueError\<close>\<close>
  "py_int s =
     (case strip s of
        [] \<Rightarrow> None
      | c # cs \<Rightarrow>
          if c = CHR ''-'' then map_option (\<lambda>n. - int n) (py_nat cs)
          else if c = CHR ''+'' then map_option int (py_nat cs)
          else map_option int (py_nat (c # cs)))"

definition dec_value :: "nat \<Rightarrow> string \<Rightarrow> nat" where
  \<comment> \<open>the number that a run of decimal digits continues from \<open>acc\<close>\<close>
  "dec_value acc s = foldl (\<lambda>a c. 10 * a + digit_val c) acc s"

section \<open>Protocol constants\<close>

definition S_RETURN_CODES :: "(nat \<times> string) list" where
  "S_RETURN_CODES =
     [(0, ''Frequency out of range''),
      (1, ''Memory channel out of range''),
      (2, ''Bandwidth out of range''),
      (3, ''Mono/auto stereo out of range''),
      (4, ''Memory channel 1 can't be set to skip''),
      (5, ''Incorrect PI code''),
      (6, ''Reserved (X)''),
      (7, ''All ok, channel stored'')]"

definition CSV_HEADER :: "string list" where
  "CSV_HEADER = [''Channel'', ''Frequency kHz'', ''Bandwidth Code'',
                 ''Mono/Stereo Code'', ''PI Code'', ''PS Text'']"

section \<open>Response interpreter\<close>

definition bit_messages :: "int \<Rightarrow> nat \<Rightarrow> string list" where
  \<comment> \<open>one pass of the loop \<open>for i in range(7)\<close> of \<open>interpret_s_response\<close>\<close>
  "bit_messages code i =
     (if code AND push_bit i 1 \<noteq> 0 then
        (case map_of S_RETURN_CODES i of
           Some m \<Rightarrow> (if \<not> (i = 7 \<and> push_bit 7 1 AND code \<noteq> 0) then [m] else [])
         | None \<Rightarrow> [''Unknown error bit '' @ str_int (int i) @ '' set.''])
      else [])"

definition interpret_s_response :: "int \<Rightarrow> string list" where
  "interpret_s_response code =
     (let messages =
            (if code AND push_bit 7 1 \<noteq> 0
             then (case map_of S_RETURN_CODES 7 of Some m \<Rightarrow> [m] | None \<Rightarrow> [])
             else [])
            @ concat (map (bit_messages code) [0..<7])
      in if messages = [] then
           (if code = 0 then [''No status bits set (Code 0)'']
            else [''Unknown response code: '' @ str_int code
                  @ '' (Binary: '' @ format_08b code @ '')''])
         else messages)"

definition s_success :: "int \<Rightarrow> bool" where
  \<comment> \<open>\<open>success = bool(return_code & (1 << 7))\<close> in \<open>write_channel\<close>\<close>
  "s_success return_code = (return_code AND push_bit 7 1 \<noteq> 0)"

section \<open>The radio session\<close>

text \<open>
  The serial port is the only external device. Its model keeps what the session can
  observe: whether it is open, the commands written to it so far, the results that the
  coming calls of \<open>readline\<close> will give (a finite sequence; once it is used up every
  read times out), and whether \<open>write\<close> raises \<open>SerialException\<close>. Real time
  (the settle delays and the lengths of the timeouts) is not modelled.
\<close>

datatype rx_event =
    Line string         \<comment> \<open>\<open>readline\<close> returns this text; the empty text is a timeout\<close>
  | Timeout             \<comment> \<open>\<open>readline\<close> returns no bytes\<close>
  | ReadError string    \<comment> \<open>\<open>readline\<close> raises \<open>SerialException\<close> with this text\<close>

record serial_port =
  is_open :: bool
  written :: "string list"
  incoming :: "rx_event list"
  write_error :: "string option"

text \<open>
  A channel is a dictionary read with \<open>.get\<close>, so every entry may be absent;
  \<open>read_configuration\<close> fills the four numbers of every channel it stores.
\<close>

record channel_info =
  channel :: "int option"
  freq_khz :: "int option"
  bandwidth_code :: "int option"
  mono_stereo_code :: "int option"
  pi :: "string option"
  ps :: "string option"

record config_data =
  radio_model_id :: "string option"
  version :: "string option"
  memory_positions :: "int option"
  skip_frequency_value :: "int option"
  fm_offset_khz :: "int option"
  am_range_khz :: "(int \<times> int) option"
  fm_range_khz :: "(int \<times> int) option"
  channels :: "channel_info list"

text \<open>
  The session object \<open>TEF_ESP32_Radio\<close>. The status and progress callbacks are modelled
  by the lists of the values they are called with.
\<close>

record radio =
  serial_conn :: "serial_port option"
  config :: "config_data option"
  max_channels :: "int option"
  skip_freq_value :: "int option"
  status_log :: "string list"
  progress_log :: "(int \<times> int) list"

definition update_status :: "radio \<Rightarrow> string \<Rightarrow> radio" where
  "update_status r message = r\<lparr>status_log := status_log r @ [message]\<rparr>"

definition update_progress :: "radio \<Rightarrow> int \<Rightarrow> int \<Rightarrow> radio" where
  "update_progress r v maximum = r\<lparr>progress_log := progress_log r @ [(v, maximum)]\<rparr>"

definition connected :: "radio \<Rightarrow> bool" where
  \<comment> \<open>\<open>self.serial_conn and self.serial_conn.is_open\<close>\<close>
  "connected r = (case serial_conn r of None \<Rightarrow> False | Some p \<Rightarrow> is_open p)"

definition terminated :: "string \<Rightarrow> string" where
  \<comment> \<open>\<open>if not command.endswith('\n'): command += '\n'\<close>\<close>
  "terminated command =
     (if command \<noteq> [] \<and> last command = CHR 0x0A then command else command @ [CHR 0x0A])"

definition send_command :: "radio \<Rightarrow> string \<Rightarrow> radio \<times> bool" where
  "send_command r command =
     (case serial_conn r of
        None \<Rightarrow> (update_status r ''ERROR: Not connected to send command.'', False)
      | Some p \<Rightarrow>
          if \<not> is_open p then (update_status r ''ERROR: Not connected to send command.'', False)
          else
            (case write_error p of
               Some e \<Rightarrow>
                 (update_status r (''ERROR sending command '' @ [CHR 0x27]
                    @ strip (terminated command) @ [CHR 0x27] @ '': '' @ e), False)
             | None \<Rightarrow>
                 (r\<lparr>serial_conn := Some (p\<lparr>written := written p @ [terminated command]\<rparr>)\<rparr>,
                  True)))"

definition read_line :: "radio \<Rightarrow> radio \<times> string option" where
  "read_line r =
     (case serial_conn r of
        None \<Rightarrow> (update_status r ''ERROR: Not connected to read line.'', None)
      | Some p \<Rightarrow>
          if \<not> is_open p then (update_status r ''ERROR: Not connected to read line.'', None)
          else
            (case incoming p of
               [] \<Rightarrow> (r, None)
             | ev # rest \<Rightarrow>
                 let r' = r\<lparr>serial_conn := Some (p\<lparr>incoming := rest\<rparr>)\<rparr> in
                 (case ev of
                    Timeout \<Rightarrow> (r', None)
                  | ReadError e \<Rightarrow> (update_status r' (''ERROR reading line: '' @ e), None)
                  | Line line_bytes \<Rightarrow>
                      if line_bytes = [] then (r', None) else (r', Some (strip line_bytes)))))"

section \<open>Configuration reader\<close>

definition empty_config :: config_data where
  "empty_config =
     \<lparr>radio_model_id = None, version = None, memory_positions = None,
      skip_frequency_value = None, fm_offset_khz = None,
      am_range_khz = None, fm_range_khz = None, channels = []\<rparr>"

definition parse_range :: "string list \<Rightarrow> (int \<times> int) option" where
  \<comment> \<open>\<open>(int(parts[0]), int(parts[1]))\<close>; \<open>None\<close> on \<open>ValueError\<close> or \<open>IndexError\<close>\<close>
  "parse_range parts =
     (case parts of
        p0 # p1 # _ \<Rightarrow>
          (case py_int p0 of
             None \<Rightarrow> None
           | Some lo \<Rightarrow> (case py_int p1 of None \<Rightarrow> None | Some hi \<Rightarrow> Some (lo, hi)))
      | _ \<Rightarrow> None)"

definition text_or_none :: "string \<Rightarrow> string option" where
  \<comment> \<open>\<open>parts[4] if parts[4] else None\<close>\<close>
  "text_or_none t = (if t \<noteq> [] then Some t else None)"

definition parse_channel :: "string list \<Rightarrow> channel_info option" where
  \<comment> \<open>the \<open>try\<close> block of a six-field line; \<open>None\<close> on \<open>ValueError\<close>\<close>
  "parse_channel parts =
     (case parts of
        [p0, p1, p2, p3, p4, p5] \<Rightarrow>
          (case py_int p0 of None \<Rightarrow> None | Some ch \<Rightarrow>
          (case py_int p1 of None \<Rightarrow> None | Some f \<Rightarrow>
          (case py_int p2 of None \<Rightarrow> None | Some bw \<Rightarrow>
          (case py_int p3 of None \<Rightarrow> None | Some ms \<Rightarrow>
             Some \<lparr>channel = Some ch, freq_khz = Some f, bandwidth_code = Some bw,
                   mono_stereo_code = Some ms, pi = text_or_none p4, ps = text_or_none p5\<rparr>))))
      | _ \<Rightarrow> None)"

definition handle_line ::
  "radio \<Rightarrow> config_data \<Rightarrow> nat \<Rightarrow> int option \<Rightarrow> string \<Rightarrow> radio \<times> config_data \<times> int option" where
  \<comment> \<open>the dispatch on one received line; \<open>lines_read\<close> already counts this line\<close>
  "handle_line r cd lines_read expected_channels line =
     (if startswith line ''r:'' then
        (r, cd\<lparr>radio_model_id := Some (strip (drop 2 line))\<rparr>, expected_channels)
      else if startswith line ''v:'' then
        (r, cd\<lparr>version := Some (strip (drop 2 line))\<rparr>, expected_channels)
      else if startswith line ''m:'' then
        (case py_int (strip (drop 2 line)) of
           Some val \<Rightarrow> (r\<lparr>max_channels := Some val\<rparr>, cd\<lparr>memory_positions := Some val\<rparr>, Some val)
         | None \<Rightarrow>
             (update_status r (''Warning: Could not parse memory positions: '' @ line),
              cd, expected_channels))
      else if startswith line ''s:'' then
        (case py_int (strip (drop 2 line)) of
           Some val \<Rightarrow>
             (r\<lparr>skip_freq_value := Some val\<rparr>, cd\<lparr>skip_frequency_value := Some val\<rparr>,
              expected_channels)
         | None \<Rightarrow>
             (update_status r (''Warning: Could not parse skip frequency: '' @ line),
              cd, expected_channels))
      else if startswith line ''o:'' then
        (case (case py_split (CHR '':'') (strip (drop 2 line)) of
                 [] \<Rightarrow> None
               | p0 # _ \<Rightarrow> py_int p0) of
           Some val \<Rightarrow> (r, cd\<lparr>fm_offset_khz := Some val\<rparr>, expected_channels)
         | None \<Rightarrow>
             (update_status r (''Warning: Could not parse FM offset: '' @ line),
              cd, expected_channels))
      else if startswith line ''a:'' then
        (case parse_range (py_split (CHR '','') (strip (drop 2 line))) of
           Some rg \<Rightarrow> (r, cd\<lparr>am_range_khz := Some rg\<rparr>, expected_channels)
         | None \<Rightarrow>
             (update_status r (''Warning: Could not parse AM range: '' @ line),
              cd, expected_channels))
      else if startswith line ''f:'' then
        (case parse_range (py_split (CHR '','') (strip (drop 2 line))) of
           Some rg \<Rightarrow> (r, cd\<lparr>fm_range_khz := Some rg\<rparr>, expected_channels)
         | None \<Rightarrow>
             (update_status r (''Warning: Could not parse FM range: '' @ line),
              cd, expected_channels))
      else
        (let parts = py_split (CHR '','') line in
         if length parts = 6 then
           (case parse_channel parts of
              Some channel_info \<Rightarrow>
                (let cd' = cd\<lparr>channels := channels cd @ [channel_info]\<rparr> in
                 (case expected_channels of
                    None \<Rightarrow> (r, cd', expected_channels)
                  | Some n \<Rightarrow>
                      if n \<noteq> 0
                      then (update_progress r (int (length (channels cd'))) n, cd', expected_channels)
                      else (r, cd', expected_channels)))
            | None \<Rightarrow>
                (update_status r (''Warning: Could not parse channel data: '' @ line),
                 cd, expected_channels))
         else if lines_read > 7 then
           (update_status r (''Warning: Ignoring unexpected line: '' @ line),
            cd, expected_channels)
         else (r, cd, expected_channels)))"

definition timeout_warning :: "nat \<Rightarrow> int \<Rightarrow> string" where
  "timeout_warning received expected_channels =
     ''Warning: Read timeout before receiving all expected channels (''
     @ str_int (int received) @ ''/'' @ str_int expected_channels @ '').''"

definition pending :: "radio \<Rightarrow> nat" where
  "pending r = (case serial_conn r of None \<Rightarrow> 0 | Some p \<Rightarrow> length (incoming p))"

function read_loop ::
  "radio \<Rightarrow> config_data \<Rightarrow> nat \<Rightarrow> int option \<Rightarrow> radio \<times> config_data option" where
  \<comment> \<open>the \<open>while True\<close> loop of \<open>read_configuration\<close>; the second component is
      \<open>None\<close> where the loop returns \<open>None\<close>, the accumulated data where it breaks\<close>
  "read_loop r cd lines_read expected_channels =
     (case read_line r of
        (r1, None) \<Rightarrow>
          if (case expected_channels of
                None \<Rightarrow> False
              | Some n \<Rightarrow> int (length (channels cd)) < n)
          then (update_status r1
                  (timeout_warning (length (channels cd))
                     (case expected_channels of Some n \<Rightarrow> n | None \<Rightarrow> 0)),
                Some cd)
          else if lines_read = 0
          then (update_status r1 ''ERROR: No response received from radio for 's' command.'', None)
          else (r1, Some cd)
      | (r1, Some line) \<Rightarrow>
          (case handle_line r1 cd (Suc lines_read) expected_channels line of
             (r2, cd2, expected2) \<Rightarrow>
               if (case expected2 of
                     None \<Rightarrow> False
                   | Some n \<Rightarrow> n \<le> int (length (channels cd2)))
               then (fst (read_line r2), Some cd2)
               else read_loop r2 cd2 (Suc lines_read) expected2))"
  by pat_completeness auto

definition channels_text :: "int option \<Rightarrow> string" where
  \<comment> \<open>\<open>{self.max_channels or '?'}\<close> in an f-string: \<open>None\<close> and \<open>0\<close> both print as \<open>?\<close>\<close>
  "channels_text m = (case m of None \<Rightarrow> ''?'' | Some n \<Rightarrow> if n = 0 then ''?'' else str_int n)"

definition read_configuration :: "radio \<Rightarrow> radio \<times> config_data option" where
  "read_configuration r =
     (case send_command r ''s'' of
        (r1, False) \<Rightarrow>
          (update_status r1 ''Failed to send configuration read command ('s').'', None)
      | (r1, True) \<Rightarrow>
          (let r2 = update_status r1 ''Reading configuration from radio...'';
               r3 = r2\<lparr>config := None, max_channels := None, skip_freq_value := None\<rparr>
           in case read_loop r3 empty_config 0 None of
                (r4, None) \<Rightarrow> (r4, None)
              | (r4, Some cd) \<Rightarrow>
                  (let r5 = r4\<lparr>config := Some cd\<rparr>
                   in (update_status r5
                         (''Configuration read complete. Found ''
                          @ channels_text (max_channels r5) @ '' channels.''),
                       Some cd))))"

section \<open>Skip-state resolver\<close>

definition is_channel_skipped :: "radio \<Rightarrow> int \<Rightarrow> channel_info option \<Rightarrow> bool" where
  "is_channel_skipped r ch_num channel_data =
     (case config r of
        None \<Rightarrow> False
      | Some cfg \<Rightarrow>
          if channels cfg = [] then False
          else
            (case (case channel_data of
                     Some d \<Rightarrow> Some d
                   | None \<Rightarrow> find (\<lambda>c. channel c = Some ch_num) (channels cfg)) of
               None \<Rightarrow> False
             | Some d \<Rightarrow>
                 (case freq_khz d of
                    None \<Rightarrow> False
                  | Some current_freq_khz \<Rightarrow>
                      (case skip_freq_value r of
                         Some sv \<Rightarrow> current_freq_khz = sv
                       | None \<Rightarrow> current_freq_khz = 0))))"

section \<open>Channel writer\<close>

definition is_skip_freq :: "radio \<Rightarrow> int \<Rightarrow> bool" where
  \<comment> \<open>\<open>(freq_khz == 0) or (self.skip_freq_value is not None and freq_khz == self.skip_freq_value)\<close>\<close>
  "is_skip_freq r f =
     (f = 0 \<or> (case skip_freq_value r of None \<Rightarrow> False | Some sv \<Rightarrow> f = sv))"

definition s_command :: "int \<Rightarrow> int \<Rightarrow> int \<Rightarrow> int \<Rightarrow> string \<Rightarrow> string \<Rightarrow> string" where
  \<comment> \<open>\<open>f"S{ch_num},{freq_khz},{bandwidth_code},{mono_stereo_code},{pi_upper},{ps}"\<close>\<close>
  "s_command ch_num f bw ms pi_upper ps_text =
     ''S'' @ str_int ch_num @ '','' @ str_int f @ '','' @ str_int bw @ '',''
     @ str_int ms @ '','' @ pi_upper @ '','' @ ps_text"

definition handle_response :: "radio \<Rightarrow> int \<Rightarrow> string \<Rightarrow> radio \<times> bool \<times> string list" where
  \<comment> \<open>the part of \<open>write_channel\<close> under "Send and Handle Response"\<close>
  "handle_response r ch_num command =
     (case send_command (update_status r (''Sending: '' @ command)) command of
        (r1, False) \<Rightarrow> (r1, False, [''Failed to send 'S' command.''])
      | (r1, True) \<Rightarrow>
          (case read_line r1 of
             (r2, None) \<Rightarrow> (r2, False, [''No response received after 'S' command.''])
           | (r2, Some response_line) \<Rightarrow>
               if startswith response_line ''S:'' then
                 (case py_int (strip (drop 2 response_line)) of
                    Some return_code \<Rightarrow>
                      (let messages = interpret_s_response return_code;
                           success = s_success return_code
                       in (update_status r2
                             (''Write Ch '' @ str_int ch_num @ '' Response: ''
                              @ join '', '' messages),
                           success, messages))
                  | None \<Rightarrow>
                      (let msg = ''Could not parse return code: '' @ response_line
                       in (update_status r2 (''ERROR: '' @ msg), False, [msg])))
               else
                 (let msg = ''Unexpected response format: '' @ response_line
                  in (update_status r2 (''ERROR: '' @ msg), False, [msg]))))"

definition write_channel ::
  "radio \<Rightarrow> int \<Rightarrow> int \<Rightarrow> int \<Rightarrow> int \<Rightarrow> string \<Rightarrow> string \<Rightarrow> radio \<times> bool \<times> string list" where
  "write_channel r ch_num f bw ms pi_text ps_text =
     (if \<not> connected r then (r, False, [''ERROR: Not connected.''])
      else if ch_num < 1
              \<or> (case max_channels r of None \<Rightarrow> False | Some m \<Rightarrow> m \<noteq> 0 \<and> ch_num > m)
      then (r, False, [''Invalid channel number (1-'' @ channels_text (max_channels r) @ '').''])
      else if f < 0 then (r, False, [''Invalid frequency (must be >= 0 kHz).''])
      else if ch_num = 1 \<and> is_skip_freq r f
      then (r, False, [''ERROR: Channel 1 cannot be set to skip.''])
      else
        (let r1 = (if f = 0 \<and> (case skip_freq_value r of None \<Rightarrow> False | Some sv \<Rightarrow> sv \<noteq> 0)
                   then update_status r
                          (''Info: Sending frequency 0 for skip, but radio uses ''
                           @ (case skip_freq_value r of Some sv \<Rightarrow> str_int sv | None \<Rightarrow> [])
                           @ '' kHz.'')
                   else r)
         in if bw < 0 then (r1, False, [''Invalid bandwidth code.''])
            else if ms \<noteq> 0 \<and> ms \<noteq> 1
            then (r1, False, [''Invalid mono/stereo code (must be 0 or 1).''])
            else
              (let pi_upper = upper pi_text;
                   r2 = (if length pi_upper > 4
                         then update_status r1 ''Warning: PI code truncated.'' else r1);
                   pi_upper = (if length pi_upper > 4 then take 4 pi_upper else pi_upper);
                   r3 = (if length ps_text > 8
                         then update_status r2 ''Warning: PS text truncated.'' else r2);
                   ps_text = (if length ps_text > 8 then take 8 ps_text else ps_text)
               in handle_response r3 ch_num (s_command ch_num f bw ms pi_upper ps_text))))"

section \<open>CSV export and differential import\<close>

text \<open>
  A CSV file is modelled by its rows, each a list of fields, as \<open>csv.writer\<close> takes them
  and \<open>csv.reader\<close> gives them back; the file system and the quoting of fields are the
  library's business. \<open>self.radio_config\<close> of the application is a parameter of its
  own: it is the last configuration the session returned.
\<close>

definition cell_int :: "int option \<Rightarrow> string" where
  \<comment> \<open>\<open>'' if value is None else value\<close>, written by \<open>csv.writer\<close> as \<open>str(value)\<close>\<close>
  "cell_int v = (case v of None \<Rightarrow> [] | Some i \<Rightarrow> str_int i)"

definition cell_text :: "string option \<Rightarrow> string" where
  "cell_text v = (case v of None \<Rightarrow> [] | Some t \<Rightarrow> t)"

definition export_row :: "channel_info \<Rightarrow> string list" where
  "export_row chan_data =
     [cell_int (channel chan_data), cell_int (freq_khz chan_data),
      cell_int (bandwidth_code chan_data), cell_int (mono_stereo_code chan_data),
      cell_text (pi chan_data), cell_text (ps chan_data)]"

definition channel_key :: "channel_info \<Rightarrow> nat \<times> int" where
  \<comment> \<open>the sort key \<open>x.get('channel', float('inf'))\<close>: a missing number sorts last\<close>
  "channel_key x = (case channel x of None \<Rightarrow> (1, 0) | Some n \<Rightarrow> (0, n))"

definition export_csv_worker :: "config_data option \<Rightarrow> string + string list list" where
  \<comment> \<open>the rows written, or the error message\<close>
  "export_csv_worker radio_config =
     (case radio_config of
        None \<Rightarrow> Inl ''No channel data found in configuration.''
      | Some cfg \<Rightarrow> Inr (CSV_HEADER # map export_row (sort_key channel_key (channels cfg))))"

datatype import_warning =
    WrongColumnCount nat nat        \<comment> \<open>Row n: Skipped (Expected 6 columns, found k).\<close>
  | ChannelOutOfRange nat int       \<comment> \<open>Row n: Skipped (Channel ch out of valid range).\<close>
  | NegativeFrequency nat int       \<comment> \<open>Row n: Skipped (Frequency cannot be negative).\<close>
  | NegativeBandwidth nat int       \<comment> \<open>Row n: Skipped (Bandwidth code cannot be negative).\<close>
  | InvalidMonoStereo nat int       \<comment> \<open>Row n: Skipped (Invalid Mono/Stereo code).\<close>
  | PiTruncated nat string string   \<comment> \<open>Row n: PI truncated (max 4 chars).\<close>
  | PsTruncated nat string string   \<comment> \<open>Row n: PS truncated (max 8 chars).\<close>
  | ChannelOneSkip nat int          \<comment> \<open>Row n: Skipped (Channel 1 cannot be set to skip frequency).\<close>
  | InvalidNumber nat "string list" \<comment> \<open>Row n: Skipped (Invalid number format).\<close>

datatype import_error =
    EmptyFile                       \<comment> \<open>CSV file is empty.\<close>
  | InvalidHeader "string list"     \<comment> \<open>Invalid CSV header.\<close>
  | UnexpectedParsingError          \<comment> \<open>the \<open>TypeError\<close> of comparing with \<open>max_channels = None\<close>\<close>

datatype row_result =
    Skipped "import_warning list"               \<comment> \<open>\<open>continue\<close>, with the warnings added\<close>
  | Stored int channel_info "import_warning list"   \<comment> \<open>\<open>imported_channels[ch] = ...\<close>\<close>
  | Crashed "import_warning list"               \<comment> \<open>an exception that leaves the loop\<close>

definition validate_row ::
  "radio \<Rightarrow> nat \<Rightarrow> int \<Rightarrow> int \<Rightarrow> int \<Rightarrow> int \<Rightarrow> string \<Rightarrow> string \<Rightarrow> row_result" where
  \<comment> \<open>the range checks, the truncations and the channel 1 check of a row whose numbers parsed\<close>
  "validate_row r line_num ch f bw ms pi0 ps0 =
     (if ch < 1 then Skipped [ChannelOutOfRange line_num ch]
      else
        (case max_channels r of
           None \<Rightarrow> Crashed []
         | Some m \<Rightarrow>
             if ch > m then Skipped [ChannelOutOfRange line_num ch]
             else if f < 0 then Skipped [NegativeFrequency line_num f]
             else if bw < 0 then Skipped [NegativeBandwidth line_num bw]
             else if ms \<noteq> 0 \<and> ms \<noteq> 1 then Skipped [InvalidMonoStereo line_num ms]
             else
               (let w1 = (if length pi0 > 4 then [PiTruncated line_num pi0 (take 4 pi0)] else []);
                    pi1 = (if length pi0 > 4 then take 4 pi0 else pi0);
                    w2 = (if length ps0 > 8 then [PsTruncated line_num ps0 (take 8 ps0)] else []);
                    ps1 = (if length ps0 > 8 then take 8 ps0 else ps0)
                in if ch = 1 \<and> is_skip_freq r f
                   then Skipped (w1 @ w2 @ [ChannelOneSkip line_num f])
                   else Stored ch
                          \<lparr>channel = Some ch, freq_khz = Some f,
                            bandwidth_code = Some bw, mono_stereo_code = Some ms,
                            pi = Some pi1, ps = Some ps1\<rparr>
                          (w1 @ w2))))"

definition import_row :: "radio \<Rightarrow> nat \<Rightarrow> string list \<Rightarrow> row_result" where
  \<comment> \<open>the body of \<open>for row in reader\<close>\<close>
  "import_row r line_num row =
     (if \<not> list_ex (\<lambda>field. strip field \<noteq> []) row then Skipped []
      else
        (case row of
           [c0, c1, c2, c3, c4, c5] \<Rightarrow>
             (case py_int (strip c0) of
                None \<Rightarrow> Skipped [InvalidNumber line_num (take 4 row)]
              | Some ch \<Rightarrow>
             (case py_int (strip c1) of
                None \<Rightarrow> Skipped [InvalidNumber line_num (take 4 row)]
              | Some f \<Rightarrow>
             (case py_int (strip c2) of
                None \<Rightarrow> Skipped [InvalidNumber line_num (take 4 row)]
              | Some bw \<Rightarrow>
             (case py_int (strip c3) of
                None \<Rightarrow> Skipped [InvalidNumber line_num (take 4 row)]
              | Some ms \<Rightarrow>
                  validate_row r line_num ch f bw ms (upper (strip c4)) (strip c5)))))
         | _ \<Rightarrow> Skipped [WrongColumnCount line_num (length row)]))"

fun import_rows ::
  "radio \<Rightarrow> nat \<Rightarrow> string list list \<Rightarrow> (int \<times> channel_info) list \<Rightarrow> import_warning list
   \<Rightarrow> import_error list \<times> (int \<times> channel_info) list \<times> import_warning list" where
  \<comment> \<open>the loop over the data rows; \<open>imported_channels\<close> is a dictionary, kept in insertion order\<close>
  "import_rows r line_num [] imported_channels parse_warnings =
     ([], imported_channels, parse_warnings)"
| "import_rows r line_num (row # rows) imported_channels parse_warnings =
     (case import_row r (Suc line_num) row of
        Skipped ws \<Rightarrow> import_rows r (Suc line_num) rows imported_channels (parse_warnings @ ws)
      | Stored ch d ws \<Rightarrow>
          import_rows r (Suc line_num) rows (AList.update ch d imported_channels)
            (parse_warnings @ ws)
      | Crashed ws \<Rightarrow> ([UnexpectedParsingError], imported_channels, parse_warnings @ ws))"

definition parse_csv ::
  "radio \<Rightarrow> string list list
   \<Rightarrow> import_error list \<times> (int \<times> channel_info) list \<times> import_warning list" where
  "parse_csv r csv =
     (case csv of
        [] \<Rightarrow> ([EmptyFile], [], [])
      | header # rows \<Rightarrow>
          if header \<noteq> CSV_HEADER then ([InvalidHeader header], [], [])
          else import_rows r 1 rows [] [])"

definition current_channels_dict :: "config_data \<Rightarrow> int \<Rightarrow> channel_info option" where
  \<comment> \<open>\<open>{c.get('channel'): c for c in channels if c.get('channel') is not None}\<close>\<close>
  "current_channels_dict cfg =
     fold (\<lambda>c m. case channel c of None \<Rightarrow> m | Some n \<Rightarrow> m(n \<mapsto> c)) (channels cfg) Map.empty"

definition text_or_empty :: "string option \<Rightarrow> string" where
  \<comment> \<open>\<open>curr_data.get('pi') or ''\<close>\<close>
  "text_or_empty v = (case v of None \<Rightarrow> [] | Some t \<Rightarrow> t)"

definition is_skip_in_csv :: "radio \<Rightarrow> channel_info \<Rightarrow> bool" where
  "is_skip_in_csv r imp_data =
     (freq_khz imp_data = Some 0
      \<or> (skip_freq_value r \<noteq> None \<and> freq_khz imp_data = skip_freq_value r))"

definition needs_write :: "radio \<Rightarrow> int \<Rightarrow> channel_info \<Rightarrow> channel_info option \<Rightarrow> bool" where
  \<comment> \<open>the body of \<open>for ch_num, imp_data in imported_channels.items()\<close>\<close>
  "needs_write r ch_num imp_data curr_data =
     (let imp_pi = text_or_empty (pi imp_data);
          imp_ps = text_or_empty (ps imp_data)
      in case curr_data of
           None \<Rightarrow> \<not> is_skip_in_csv r imp_data
         | Some live \<Rightarrow>
             (let curr_pi = text_or_empty (pi live);
                  curr_ps = text_or_empty (ps live);
                  diffs =
                    (if freq_khz imp_data \<noteq> freq_khz live then [''Freq''] else [])
                    @ (if bandwidth_code imp_data \<noteq> bandwidth_code live then [''BW''] else [])
                    @ (if mono_stereo_code imp_data \<noteq> mono_stereo_code live then [''Mode''] else [])
                    @ (if imp_pi \<noteq> upper curr_pi then [''PI''] else [])
                    @ (if imp_ps \<noteq> curr_ps then [''PS''] else [])
              in if diffs \<noteq> [] then
                   (if is_skip_in_csv r imp_data
                       \<and> is_channel_skipped r ch_num (Some live)
                       \<and> bandwidth_code imp_data = bandwidth_code live
                       \<and> mono_stereo_code imp_data = mono_stereo_code live
                       \<and> imp_pi = upper curr_pi
                       \<and> imp_ps = curr_ps
                    then False else True)
                 else False))"

definition import_csv_thread_worker ::
  "radio \<Rightarrow> config_data \<Rightarrow> string list list
   \<Rightarrow> channel_info list \<times> import_error list \<times> import_warning list" where
  \<comment> \<open>the write list, the fatal errors and the warnings handed to \<open>_post_import_parse\<close>\<close>
  "import_csv_thread_worker r radio_config csv =
     (case parse_csv r csv of
        (parse_errors, imported_channels, parse_warnings) \<Rightarrow>
          (if parse_errors = [] \<and> imported_channels \<noteq> []
           then map snd (filter (\<lambda>(ch_num, imp_data).
                                   needs_write r ch_num imp_data
                                     (current_channels_dict radio_config ch_num))
                           imported_channels)
           else [],
           parse_errors, parse_warnings))"

definition complete :: "int option \<Rightarrow> config_data \<Rightarrow> bool" where
  \<comment> \<open>the completion test \<open>expected_channels is not None and len(channels) >= expected_channels\<close>\<close>
  "complete e cd = (case e of None \<Rightarrow> False | Some n \<Rightarrow> n \<le> int (length (channels cd)))"

definition row_channel :: "string \<Rightarrow> channel_info option" where
  \<comment> \<open>the channel a received line carries: a line without one of the seven prefixes that
      splits into six fields of which the first four are integers\<close>
  "row_channel line =
     (if startswith line ''r:'' \<or> startswith line ''v:'' \<or> startswith line ''m:''
         \<or> startswith line ''s:'' \<or> startswith line ''o:'' \<or> startswith line ''a:''
         \<or> startswith line ''f:''
      then None
      else parse_channel (py_split (CHR '','') line))"

text \<open>The channel rows among the lines the device sends, in the order sent.\<close>

fun sent_channels :: "rx_event list \<Rightarrow> channel_info list" where
  "sent_channels [] = []"
| "sent_channels (Line l # evs) =
     (case row_channel (strip l) of None \<Rightarrow> [] | Some c \<Rightarrow> [c]) @ sent_channels evs"
| "sent_channels (_ # evs) = sent_channels evs"

section \<open>Session states\<close>

definition new_radio :: radio where
  \<comment> \<open>the session after \<open>__init__\<close>\<close>
  "new_radio = \<lparr>serial_conn = None, config = None, max_channels = None,
                 skip_freq_value = None, status_log = [], progress_log = []\<rparr>"

definition open_port :: "rx_event list \<Rightarrow> serial_port" where
  \<comment> \<open>an open port on which the device will send the given events\<close>
  "open_port evs = \<lparr>is_open = True, written = [], incoming = evs, write_error = None\<rparr>"

definition connected_radio :: "rx_event list \<Rightarrow> radio" where
  \<comment> \<open>the session after a successful \<open>connect\<close>\<close>
  "connected_radio evs = new_radio\<lparr>serial_conn := Some (open_port evs)\<rparr>"

definition example_channel :: "int \<Rightarrow> int \<Rightarrow> channel_info" where
  \<comment> \<open>a stored channel as the reader builds it from the line \<open>ch,f,0,1,,\<close>\<close>
  "example_channel ch f =
     \<lparr>channel = Some ch, freq_khz = Some f, bandwidth_code = Some 0,
      mono_stereo_code = Some 1, pi = None, ps = None\<rparr>"

definition example_dump :: "rx_event list" where
  "example_dump = [Line ''m:2\<newline>'', Line ''s:500\<newline>'', Line ''1,9000,0,1,,\<newline>'',
                   Line ''2,500,0,1,,\<newline>'']"

definition repeating_dump :: "rx_event list" where
  "repeating_dump = [Line ''m:2\<newline>'', Line ''5,100,0,1,,\<newline>'', Line ''5,100,0,1,,\<newline>'']"




definition ascii :: "string \<Rightarrow> bool" where
  "ascii s = list_all (\<lambda>c. (of_char c :: nat) < 128) s"

text \<open>
  The records that the sanitising of an imported row leaves as they are: PI and PS without
  leading or trailing whitespace, of at most 4 and 8 characters; the PI is ASCII text, for
  which upper-casing is modelled.
\<close>

definition clean_text :: "channel_info \<Rightarrow> bool" where
  "clean_text c =
     (ascii (text_or_empty (pi c))
      \<and> strip (text_or_empty (pi c)) = text_or_empty (pi c)
      \<and> length (text_or_empty (pi c)) \<le> 4
      \<and> strip (text_or_empty (ps c)) = text_or_empty (ps c)
      \<and> length (text_or_empty (ps c)) \<le> 8)"

text \<open>A record as the import stores it: PI in upper case, absent PI and PS as empty text.\<close>

definition as_imported :: "channel_info \<Rightarrow> channel_info" where
  "as_imported c =
     c\<lparr>pi := Some (upper (text_or_empty (pi c))), ps := Some (text_or_empty (ps c))\<rparr>"

text \<open>The records whose exported row passes every check of the import.\<close>

definition valid_record :: "radio \<Rightarrow> channel_info \<Rightarrow> bool" where
  "valid_record r c =
     (\<exists>ch f bw ms m.
        channel c = Some ch \<and> freq_khz c = Some f \<and> bandwidth_code c = Some bw
        \<and> mono_stereo_code c = Some ms \<and> max_channels r = Some m
        \<and> 1 \<le> ch \<and> ch \<le> m \<and> 0 \<le> f \<and> 0 \<le> bw \<and> (ms = 0 \<or> ms = 1)
        \<and> \<not> (ch = 1 \<and> is_skip_freq r f))"

definition session_after_read :: "config_data \<Rightarrow> radio" where
  \<comment> \<open>the session as a read that returned \<open>cfg\<close> leaves it, nothing pending on the port\<close>
  "session_after_read cfg =
     (connected_radio [])\<lparr>config := Some cfg, max_channels := memory_positions cfg,
                          skip_freq_value := skip_frequency_value cfg\<rparr>"

definition padded_config :: config_data where
  "padded_config =
     empty_config\<lparr>memory_positions := Some 20, skip_frequency_value := Some 500,
                  channels := [(example_channel 2 9000)\<lparr>pi := Some ''ABCD'', ps := Some '' RADIO''\<rparr>]\<rparr>"

definition repeated_config :: config_data where
  "repeated_config =
     empty_config\<lparr>memory_positions := Some 20, skip_frequency_value := Some 500,
                  channels := [example_channel 2 9000, example_channel 2 (- 5)]\<rparr>"

text \<open>
  Where the device sent several rows for one channel number and one of them is valid, the
  last of them is valid: the import keeps the last valid row of a channel number, the live
  lookup the last record.
\<close>

definition last_valid :: "radio \<Rightarrow> config_data \<Rightarrow> bool" where
  "last_valid r cfg =
     (\<forall>c \<in> set (channels cfg). \<forall>ch.
        valid_record r c \<and> channel c = Some ch \<longrightarrow>
        (\<exists>l. find (\<lambda>x. channel x = Some ch) (rev (channels cfg)) = Some l \<and> valid_record r l))"

definition doubled_config :: config_data where
  \<comment> \<open>two valid rows for channel 2\<close>
  "doubled_config =
     empty_config\<lparr>memory_positions := Some 20, skip_frequency_value := Some 500,
                  channels := [example_channel 2 9000, example_channel 2 9100]\<rparr>"


text \<open>
  The configuration, and the declared channel count, that a sequence of received lines
  amounts to when each is dispatched in turn, starting from a configuration, a count and a
  number of lines already read.
\<close>

fun lines_config ::
  "config_data \<times> int option \<Rightarrow> nat \<Rightarrow> string list \<Rightarrow> config_data \<times> int option" where
  "lines_config s n [] = s"
| "lines_config s n (l # ls) =
     lines_config (snd (handle_line new_radio (fst s) (Suc n) (snd s) l)) (Suc n) ls"

text \<open>What is pending on the port makes the next read return no line.\<close>

definition silent :: "rx_event list \<Rightarrow> bool" where
  "silent evs =
     (case evs of
        [] \<Rightarrow> True
      | Line l # _ \<Rightarrow> l = []
      | _ \<Rightarrow> True)"

definition short_dump :: "rx_event list" where
  "short_dump = [Line ''m:2\<newline>'', Line ''1,9000,0,1,,\<newline>'', Timeout]"

section \<open>Termination of the read loop\<close>

lemma handle_line_serial_conn:
  "handle_line r cd n e line = (r2, cd2, e2) \<Longrightarrow> serial_conn r2 = serial_conn r"
  by (auto simp: handle_line_def update_status_def update_progress_def Let_def
           split: if_splits option.splits)

lemma read_line_pending:
  "read_line r = (r1, Some line) \<Longrightarrow> pending r1 < pending r"
  by (auto simp: read_line_def pending_def update_status_def Let_def
           split: option.splits if_splits list.splits rx_event.splits)

termination read_loop
proof (relation "measure (\<lambda>(r, cd, n, e). pending r)", goal_cases)
  case 1
  show ?case by simp
next
  case 2
  then show ?case
    using handle_line_serial_conn read_line_pending
    by (metis (no_types, lifting) case_prod_conv in_measure pending_def)
qed

declare read_loop.simps [simp del]

section \<open>Response interpreter: every status bit is reported\<close>

lemma and_bit: "(code AND push_bit i 1 \<noteq> 0) = bit (code::int) i"
  by (simp add: and_exp_eq_0_iff_not_bit)

lemma S_RETURN_CODES_inj:
  "map_of S_RETURN_CODES i = Some m \<Longrightarrow> map_of S_RETURN_CODES j = Some m \<Longrightarrow> i = j"
  by (auto simp: S_RETURN_CODES_def split: if_splits)

lemma S_RETURN_CODES_dom: "i < 8 \<Longrightarrow> \<exists>m. map_of S_RETURN_CODES i = Some m"
  by (auto simp: S_RETURN_CODES_def)

lemma bit_messages_set:
  assumes "i < 7"
  shows "set (bit_messages code i) =
           (if bit code i then set_option (map_of S_RETURN_CODES i) else {})"
proof -
  from assms obtain m where m: "map_of S_RETURN_CODES i = Some m"
    using S_RETURN_CODES_dom [of i] by auto
  from assms show ?thesis
    unfolding bit_messages_def and_bit by (simp add: m)
qed

lemma messages_set:
  "set (concat (map (bit_messages code) [0..<7])) =
     {m. \<exists>i<7. bit code i \<and> map_of S_RETURN_CODES i = Some m}"
proof -
  have "set (concat (map (bit_messages code) [0..<7])) =
          (\<Union>i\<in>{0..<7}. set (bit_messages code i))"
    by (simp only: set_concat set_map set_upt image_image)
  also have "\<dots> = {m. \<exists>i<7. bit code i \<and> map_of S_RETURN_CODES i = Some m}"
    by (auto simp: bit_messages_set split: if_splits)
  finally show ?thesis .
qed

lemma interpret_set:
  "set (interpret_s_response code) =
     (if \<exists>i<8. bit code i then {m. \<exists>i<8. bit code i \<and> map_of S_RETURN_CODES i = Some m}
      else if code = 0 then {''No status bits set (Code 0)''}
      else {''Unknown response code: '' @ str_int code @ '' (Binary: '' @ format_08b code @ '')''})"
proof -
  obtain ok where ok: "map_of S_RETURN_CODES 7 = Some ok"
    using S_RETURN_CODES_dom [of 7] by auto
  have lt8: "\<And>i::nat. i < 8 \<longleftrightarrow> i < 7 \<or> i = 7" by arith
  define ms where "ms = (if code AND push_bit 7 1 \<noteq> 0
             then (case map_of S_RETURN_CODES 7 of Some m \<Rightarrow> [m] | None \<Rightarrow> [])
             else [])
            @ concat (map (bit_messages code) [0..<7])"
  have eq: "interpret_s_response code =
     (if ms = [] then
        (if code = 0 then [''No status bits set (Code 0)'']
         else [''Unknown response code: '' @ str_int code
               @ '' (Binary: '' @ format_08b code @ '')''])
      else ms)"
    unfolding interpret_s_response_def Let_def ms_def by (rule refl)
  have b7: "(code AND push_bit 7 1 \<noteq> 0) = bit code 7" by (rule and_bit)
  have "set ms = (if bit code 7 then {ok} else {}) \<union>
                  {m. \<exists>i<7. bit code i \<and> map_of S_RETURN_CODES i = Some m}"
    unfolding ms_def
    by (simp only: set_append messages_set b7 ok option.case split: if_splits) simp
  also have "\<dots> = {m. \<exists>i<8. bit code i \<and> map_of S_RETURN_CODES i = Some m}"
    using ok by (auto simp: lt8)
  finally have set_ms:
    "set ms = {m. \<exists>i<8. bit code i \<and> map_of S_RETURN_CODES i = Some m}" .
  have "ms = [] \<longleftrightarrow> set ms = {}" by simp
  also have "\<dots> \<longleftrightarrow> \<not> (\<exists>i<8. bit code i)"
    unfolding set_ms using S_RETURN_CODES_dom by auto
  finally have empty: "ms = [] \<longleftrightarrow> \<not> (\<exists>i<8. bit code i)" .
  show ?thesis
  proof (cases "ms = []")
    case True
    then have "\<not> (\<exists>i<8. bit code i)" using empty by simp
    with True show ?thesis by (simp only: eq if_True if_False) simp
  next
    case False
    then show ?thesis using empty set_ms by (simp add: eq)
  qed
qed

text \<open>
  Claim C2. For every status code the success flag is bit 7; the message list holds
  "All ok, channel stored" exactly when bit 7 is set and, for each of the bits 0 to 6, its
  documented failure message exactly when that bit is set, so that all failure bits set
  together are reported; code 0 gives the single message "No status bits set (Code 0)";
  code 133 gives success and exactly the three messages of bits 7, 0 and 2.
\<close>

theorem interpret_s_response_bits:
  "(s_success code \<longleftrightarrow> bit code 7) \<and>
   (''All ok, channel stored'' \<in> set (interpret_s_response code) \<longleftrightarrow> bit code 7) \<and>
   (\<forall>i<7. \<forall>m. map_of S_RETURN_CODES i = Some m \<longrightarrow>
       (m \<in> set (interpret_s_response code) \<longleftrightarrow> bit code i)) \<and>
   interpret_s_response 0 = [''No status bits set (Code 0)''] \<and>
   s_success 133 \<and>
   interpret_s_response 133 =
     [''All ok, channel stored'', ''Frequency out of range'', ''Bandwidth out of range'']"
proof (intro conjI allI impI)
  show "s_success code \<longleftrightarrow> bit code 7"
    unfolding s_success_def by (rule and_bit)
  show "interpret_s_response 0 = [''No status bits set (Code 0)'']"
    by code_simp
  show "s_success 133" by code_simp
  show "interpret_s_response 133 =
     [''All ok, channel stored'', ''Frequency out of range'', ''Bandwidth out of range'']"
    by code_simp
  have ok: "map_of S_RETURN_CODES 7 = Some ''All ok, channel stored''"
    by (simp add: S_RETURN_CODES_def)
  have special: "\<And>i m. i < 8 \<Longrightarrow> map_of S_RETURN_CODES i = Some m \<Longrightarrow>
      m \<noteq> ''No status bits set (Code 0)'' \<and>
      m \<noteq> ''Unknown response code: '' @ str_int code @ '' (Binary: '' @ format_08b code @ '')''"
    by (auto simp: S_RETURN_CODES_def split: if_splits)
  have key: "\<And>i m. i < 8 \<Longrightarrow> map_of S_RETURN_CODES i = Some m \<Longrightarrow>
      (m \<in> set (interpret_s_response code) \<longleftrightarrow> bit code i)"
  proof -
    fix i m assume i: "i < (8::nat)" and m: "map_of S_RETURN_CODES i = Some m"
    show "m \<in> set (interpret_s_response code) \<longleftrightarrow> bit code i"
    proof (cases "\<exists>j<8. bit code j")
      case True
      then have "set (interpret_s_response code) =
                 {m. \<exists>i<8. bit code i \<and> map_of S_RETURN_CODES i = Some m}"
        by (simp add: interpret_set)
      then show ?thesis using i m S_RETURN_CODES_inj by auto
    next
      case False
      then have "\<not> bit code i" using i by blast
      moreover have "set (interpret_s_response code) =
         (if code = 0 then {''No status bits set (Code 0)''}
          else {''Unknown response code: '' @ str_int code
                @ '' (Binary: '' @ format_08b code @ '')''})"
        using False by (simp only: interpret_set if_False)
      then have "m \<notin> set (interpret_s_response code)"
        using special [OF i m] by (simp split: if_splits)
      ultimately show ?thesis by simp
    qed
  qed
  show "''All ok, channel stored'' \<in> set (interpret_s_response code) \<longleftrightarrow> bit code 7"
    using key [OF _ ok] by simp
  fix i m assume "i < (7::nat)" "map_of S_RETURN_CODES i = Some m"
  then show "m \<in> set (interpret_s_response code) \<longleftrightarrow> bit code i"
    using key [of i m] by simp
qed

theorem interpret_s_response_bits_witness:
  "bit (5::int) 2 \<and> map_of S_RETURN_CODES 2 = Some ''Bandwidth out of range'' \<and>
   ''Bandwidth out of range'' \<in> set (interpret_s_response 5) \<and> \<not> s_success 5 \<and>
   ''All ok, channel stored'' \<notin> set (interpret_s_response 5)"
proof -
  have m: "map_of S_RETURN_CODES 2 = Some ''Bandwidth out of range''"
    by (simp add: S_RETURN_CODES_def)
  have b: "bit (5::int) 2" "\<not> bit (5::int) 7" by simp_all
  have "2 < (7::nat)" by simp
  with interpret_s_response_bits [of 5] m b show ?thesis by blast
qed

section \<open>Channel writer: what reaches the serial port\<close>

lemma serial_conn_update_status [simp]: "serial_conn (update_status r m) = serial_conn r"
  by (simp add: update_status_def)

lemma read_line_written:
  "serial_conn r = Some p \<Longrightarrow>
   \<exists>p'. serial_conn (fst (read_line r)) = Some p' \<and> written p' = written p"
  by (auto simp: read_line_def Let_def update_status_def
           split: option.splits list.splits rx_event.splits)

lemma send_command_written:
  "serial_conn r = Some p \<Longrightarrow> is_open p \<Longrightarrow> write_error p = None \<Longrightarrow>
   send_command r command =
     (r\<lparr>serial_conn := Some (p\<lparr>written := written p @ [terminated command]\<rparr>)\<rparr>, True)"
  by (simp add: send_command_def)

lemma handle_response_written:
  assumes "serial_conn r = Some p" "is_open p" "write_error p = None"
  shows "\<exists>p'. serial_conn (fst (handle_response r ch_num command)) = Some p'
              \<and> written p' = written p @ [terminated command]"
proof -
  let ?r0 = "update_status r (''Sending: '' @ command)"
  let ?r1 = "?r0\<lparr>serial_conn := Some (p\<lparr>written := written p @ [terminated command]\<rparr>)\<rparr>"
  have s: "send_command ?r0 command = (?r1, True)"
    using assms by (simp add: send_command_written)
  obtain p' where p': "serial_conn (fst (read_line ?r1)) = Some p'"
     "written p' = written p @ [terminated command]"
    using read_line_written [of ?r1 "p\<lparr>written := written p @ [terminated command]\<rparr>"] by auto
  obtain r2 l where rl: "read_line ?r1 = (r2, l)" by (cases "read_line ?r1")
  with p' have r2: "serial_conn r2 = Some p'" by simp
  show ?thesis
    unfolding handle_response_def s using rl r2 p'(2)
    by (auto simp: Let_def split: option.splits)
qed

lemma write_channel_sends:
  assumes "serial_conn r = Some p" and "is_open p" and "write_error p = None"
    and "\<not> (\<exists>m. max_channels r = Some m \<and> m \<noteq> 0 \<and> m < ch_num)"
    and "1 \<le> ch_num" and "0 \<le> f" and "\<not> (ch_num = 1 \<and> is_skip_freq r f)"
    and "0 \<le> bw" and "ms = 0 \<or> ms = 1"
  shows "\<exists>p'. serial_conn (fst (write_channel r ch_num f bw ms pi_text ps_text)) = Some p'
           \<and> written p' =
               written p @ [terminated (s_command ch_num f bw ms (take 4 (upper pi_text))
                                          (take 8 ps_text))]"
proof -
  have conn: "connected r" using assms(1,2) by (simp add: connected_def)
  have bound: "\<not> (case max_channels r of None \<Rightarrow> False | Some m \<Rightarrow> m \<noteq> 0 \<and> ch_num > m)"
    using assms(4) by (auto split: option.splits)
  have t4: "(if length (upper pi_text) > 4 then take 4 (upper pi_text) else upper pi_text)
            = take 4 (upper pi_text)" by simp
  have t8: "(if length ps_text > 8 then take 8 ps_text else ps_text) = take 8 ps_text" by simp
  define r1 where "r1 = (if f = 0 \<and> (case skip_freq_value r of None \<Rightarrow> False | Some sv \<Rightarrow> sv \<noteq> 0)
                   then update_status r
                          (''Info: Sending frequency 0 for skip, but radio uses ''
                           @ (case skip_freq_value r of Some sv \<Rightarrow> str_int sv | None \<Rightarrow> [])
                           @ '' kHz.'')
                   else r)"
  define r2 where "r2 = (if length (upper pi_text) > 4
                         then update_status r1 ''Warning: PI code truncated.'' else r1)"
  define r3 where "r3 = (if length ps_text > 8
                         then update_status r2 ''Warning: PS text truncated.'' else r2)"
  have r3: "serial_conn r3 = Some p"
    using assms(1) by (simp add: r3_def r2_def r1_def)
  have "write_channel r ch_num f bw ms pi_text ps_text =
          handle_response r3 ch_num
            (s_command ch_num f bw ms (take 4 (upper pi_text)) (take 8 ps_text))"
    using conn bound assms(5-9) unfolding write_channel_def Let_def t4 t8 r3_def r2_def r1_def
    by auto
  then show ?thesis
    using handle_response_written [OF r3 assms(2,3)] by simp
qed

text \<open>Evaluation of the text functions on literals.\<close>

lemmas eval_text = terminated_def s_command_def str_int_def digits_of.simps digit_char_def
  upper_def upper_char_def

lemmas eval_state = connected_radio_def new_radio_def open_port_def connected_def

text \<open>
  Claim C10. While the number of memory positions is unknown to the session
  (\<open>max_channels\<close> unset), \<open>write_channel\<close> puts no upper bound on the channel number:
  for every channel number from 1 on, when the remaining validations pass (frequency not
  negative, not channel 1 with a skip frequency, bandwidth code not negative, mono/stereo
  code 0 or 1) and the port accepts the write, the encoded \<open>S\<close> command is written to
  the port.
\<close>

theorem write_channel_unbounded:
  assumes "serial_conn r = Some p" and "is_open p" and "write_error p = None"
    and "max_channels r = None"
    and "1 \<le> ch_num" and "0 \<le> f" and "\<not> (ch_num = 1 \<and> is_skip_freq r f)"
    and "0 \<le> bw" and "ms = 0 \<or> ms = 1"
  shows "\<exists>p'. serial_conn (fst (write_channel r ch_num f bw ms pi_text ps_text)) = Some p'
           \<and> written p' =
               written p @ [terminated (s_command ch_num f bw ms (take 4 (upper pi_text))
                                          (take 8 ps_text))]"
  using write_channel_sends [OF assms(1-3) _ assms(5-9)] assms(4) by simp

theorem write_channel_unbounded_witness:
  "max_channels (connected_radio []) = None \<and>
   map_option written
     (serial_conn (fst (write_channel (connected_radio []) 250 9000 0 1 ''abcd'' ''Radio'')))
   = Some [''S250,9000,0,1,ABCD,Radio\<newline>'']"
proof -
  have h1: "serial_conn (connected_radio []) = Some (open_port [])"
    by (simp add: connected_radio_def)
  have h2: "is_open (open_port [])" and h3: "write_error (open_port []) = None"
    and w: "written (open_port []) = []"
    by (simp_all add: open_port_def)
  have h4: "max_channels (connected_radio []) = None"
    by (simp add: connected_radio_def new_radio_def)
  have h5: "\<not> (250 = (1::int) \<and> is_skip_freq (connected_radio []) 9000)" by simp
  have c: "terminated (s_command 250 9000 0 1 (take 4 (upper ''abcd'')) (take 8 ''Radio''))
     = ''S250,9000,0,1,ABCD,Radio\<newline>''"
    by (simp add: eval_text)
  from write_channel_unbounded [OF h1 h2 h3 h4 _ _ h5, of 0 1 "''abcd''" "''Radio''"]
  obtain p' where "serial_conn (fst (write_channel (connected_radio []) 250 9000 0 1 ''abcd'' ''Radio'')) = Some p'"
    and "written p' = [''S250,9000,0,1,ABCD,Radio\<newline>'']"
    unfolding c w by auto
  with h4 show ?thesis by simp
qed


section \<open>Channel writer: validation before any I/O\<close>

lemma is_skip_freq_iff: "is_skip_freq r f \<longleftrightarrow> f = 0 \<or> skip_freq_value r = Some f"
  by (auto simp: is_skip_freq_def split: option.splits)

lemma channel_bound_iff:
  "(case max_channels r of None \<Rightarrow> False | Some m \<Rightarrow> m \<noteq> 0 \<and> ch_num > m)
     \<longleftrightarrow> (\<exists>m. max_channels r = Some m \<and> m \<noteq> 0 \<and> m < ch_num)"
  by (auto split: option.splits)


lemma write_channel_bad_channel:
  "connected r \<Longrightarrow> ch_num < 1 \<or> (\<exists>m. max_channels r = Some m \<and> m \<noteq> 0 \<and> m < ch_num) \<Longrightarrow>
   write_channel r ch_num f bw ms pi_text ps_text =
     (r, False, [''Invalid channel number (1-'' @ channels_text (max_channels r) @ '').''])"
  unfolding write_channel_def channel_bound_iff by simp


lemma write_channel_one_skip:
  "connected r \<Longrightarrow> \<not> (\<exists>m. max_channels r = Some m \<and> m \<noteq> 0 \<and> m < 1) \<Longrightarrow>
   f = 0 \<or> skip_freq_value r = Some f \<Longrightarrow> 0 \<le> f \<Longrightarrow>
   write_channel r 1 f bw ms pi_text ps_text =
     (r, False, [''ERROR: Channel 1 cannot be set to skip.''])"
  unfolding write_channel_def channel_bound_iff is_skip_freq_iff by simp


lemma write_channel_bad_bandwidth:
  assumes "connected r"
    and "\<not> (ch_num < 1 \<or> (\<exists>m. max_channels r = Some m \<and> m \<noteq> 0 \<and> m < ch_num))"
    and "0 \<le> f" and "\<not> (ch_num = 1 \<and> (f = 0 \<or> skip_freq_value r = Some f))" and "bw < 0"
  shows "snd (write_channel r ch_num f bw ms pi_text ps_text) = (False, [''Invalid bandwidth code.''])
       \<and> serial_conn (fst (write_channel r ch_num f bw ms pi_text ps_text)) = serial_conn r"
  using assms unfolding write_channel_def channel_bound_iff is_skip_freq_iff Let_def
  by (simp add: update_status_def)

lemma write_channel_bad_mono_stereo:
  assumes "connected r"
    and "\<not> (ch_num < 1 \<or> (\<exists>m. max_channels r = Some m \<and> m \<noteq> 0 \<and> m < ch_num))"
    and "0 \<le> f" and "\<not> (ch_num = 1 \<and> (f = 0 \<or> skip_freq_value r = Some f))" and "0 \<le> bw"
    and "ms \<noteq> 0" and "ms \<noteq> 1"
  shows "snd (write_channel r ch_num f bw ms pi_text ps_text) =
           (False, [''Invalid mono/stereo code (must be 0 or 1).''])
       \<and> serial_conn (fst (write_channel r ch_num f bw ms pi_text ps_text)) = serial_conn r"
  using assms unfolding write_channel_def channel_bound_iff is_skip_freq_iff Let_def
  by (simp add: update_status_def)









text \<open>
  A session that holds zero as the number of memory positions is left out of the statement
  above. There \<open>self.max_channels and ...\<close> takes the zero for an unknown number, no upper
  bound is applied and channel 5 is encoded and written to the port, although
  \<open>1 <= ch <= max_channels\<close>, as the import checks it, excludes every channel.
\<close>

theorem write_channel_zero_positions:
  "max_channels ((connected_radio [])\<lparr>max_channels := Some 0\<rparr>) = Some 0
   \<and> \<not> (1 \<le> (5::int) \<and> (5::int) \<le> 0)
   \<and> map_option written
        (serial_conn (fst (write_channel ((connected_radio [])\<lparr>max_channels := Some 0\<rparr>)
                             5 9000 0 1 [] [])))
      = Some [''S5,9000,0,1,,\<newline>'']"
proof -
  let ?r = "(connected_radio [])\<lparr>max_channels := Some 0\<rparr>"
  have h: "serial_conn ?r = Some (open_port [])" "is_open (open_port [])"
    "write_error (open_port []) = None" "written (open_port []) = []"
    by (simp_all add: eval_state)
  have nb: "\<not> (\<exists>m. max_channels ?r = Some m \<and> m \<noteq> 0 \<and> m < 5)" by simp
  have sk: "\<not> (5 = (1::int) \<and> is_skip_freq ?r 9000)" by simp
  have c: "terminated (s_command 5 9000 0 1 (take 4 (upper [])) (take 8 [])) = ''S5,9000,0,1,,\<newline>''"
    by (simp add: eval_text)
  from write_channel_sends [OF h(1) h(2) h(3) nb _ _ sk, of 0 1 "[]" "[]"]
  obtain p' where "serial_conn (fst (write_channel ?r 5 9000 0 1 [] [])) = Some p'"
    "written p' = [''S5,9000,0,1,,\<newline>'']"
    unfolding c h(4) by auto
  then show ?thesis by simp
qed

section \<open>Channel writer: channel 1 and the skip frequencies\<close>

text \<open>
  Claim C5 (as amended). In every connected session, writing channel 1 with frequency 0 is
  rejected by the validation with the session unchanged, so before any byte is sent. Writing
  channel 1 with frequency 500 is encoded and written to the port as an \<open>S\<close> command
  provided 500 is not the session's skip frequency (and the number of memory positions is
  not negative, the bandwidth code is not negative, the mono/stereo code is 0 or 1 and the
  port accepts the write).
\<close>

theorem write_channel_one:
  assumes "serial_conn r = Some p" and "is_open p"
  shows "fst (write_channel r 1 0 bw ms pi_text ps_text) = r
       \<and> \<not> fst (snd (write_channel r 1 0 bw ms pi_text ps_text))
       \<and> snd (snd (write_channel r 1 0 bw ms pi_text ps_text))
           \<in> {[''Invalid channel number (1-'' @ channels_text (max_channels r) @ '').''],
              [''ERROR: Channel 1 cannot be set to skip.'']}
       \<and> (write_error p = None \<and> skip_freq_value r \<noteq> Some 500
            \<and> \<not> (\<exists>m. max_channels r = Some m \<and> m < 0)
            \<and> 0 \<le> bw \<and> (ms = 0 \<or> ms = 1) \<longrightarrow>
           (\<exists>p'. serial_conn (fst (write_channel r 1 500 bw ms pi_text ps_text)) = Some p'
              \<and> written p' =
                  written p @ [terminated (s_command 1 500 bw ms (take 4 (upper pi_text))
                                             (take 8 ps_text))]))"
proof -
  have conn: "connected r" using assms by (simp add: connected_def)
  have a: "fst (write_channel r 1 0 bw ms pi_text ps_text) = r
       \<and> \<not> fst (snd (write_channel r 1 0 bw ms pi_text ps_text))
       \<and> snd (snd (write_channel r 1 0 bw ms pi_text ps_text))
           \<in> {[''Invalid channel number (1-'' @ channels_text (max_channels r) @ '').''],
              [''ERROR: Channel 1 cannot be set to skip.'']}"
  proof (cases "\<exists>m. max_channels r = Some m \<and> m \<noteq> 0 \<and> m < 1")
    case True
    then show ?thesis using write_channel_bad_channel [OF conn, of 1 0 bw ms pi_text ps_text] by simp
  next
    case False
    then show ?thesis using write_channel_one_skip [OF conn, of 0 bw ms pi_text ps_text] by simp
  qed
  have b: "\<exists>p'. serial_conn (fst (write_channel r 1 500 bw ms pi_text ps_text)) = Some p'
              \<and> written p' =
                  written p @ [terminated (s_command 1 500 bw ms (take 4 (upper pi_text))
                                             (take 8 ps_text))]"
    if h: "write_error p = None" "skip_freq_value r \<noteq> Some 500"
       "\<not> (\<exists>m. max_channels r = Some m \<and> m < 0)" "0 \<le> bw" "ms = 0 \<or> ms = 1"
  proof -
    have nb: "\<not> (\<exists>m. max_channels r = Some m \<and> m \<noteq> 0 \<and> m < 1)" using h(3) by auto
    have sk: "\<not> (1 = (1::int) \<and> is_skip_freq r 500)"
      using h(2) by (simp add: is_skip_freq_iff)
    show ?thesis
      using write_channel_sends [OF assms(1,2) h(1) nb _ _ sk h(4,5)] by simp
  qed
  from a b show ?thesis by blast
qed

theorem write_channel_one_witness:
  "serial_conn (connected_radio []) = Some (open_port []) \<and> is_open (open_port [])
   \<and> write_channel (connected_radio []) 1 0 0 1 [] []
       = (connected_radio [], False, [''ERROR: Channel 1 cannot be set to skip.''])
   \<and> map_option written (serial_conn (fst (write_channel (connected_radio []) 1 500 0 1 [] [])))
       = Some [''S1,500,0,1,,\<newline>'']"
proof -
  let ?r = "connected_radio []"
  have h: "serial_conn ?r = Some (open_port [])" "is_open (open_port [])"
    "write_error (open_port []) = None" "written (open_port []) = []"
    "skip_freq_value ?r \<noteq> Some 500" "\<not> (\<exists>m. max_channels ?r = Some m \<and> m < 0)"
    by (simp_all add: eval_state)
  have c: "terminated (s_command 1 500 0 1 (take 4 (upper [])) (take 8 [])) = ''S1,500,0,1,,\<newline>''"
    by (simp add: eval_text)
  have t: "channels_text (max_channels ?r) = ''?''"
    by (simp add: channels_text_def eval_state)
  note w = write_channel_one [OF h(1) h(2), of 0 1 "[]" "[]"]
  have z: "write_channel ?r 1 0 0 1 [] [] = (?r, False, [''ERROR: Channel 1 cannot be set to skip.''])"
    by (simp add: write_channel_def eval_state is_skip_freq_def)
  from w h(3) h(5) h(6) obtain p' where
    "serial_conn (fst (write_channel ?r 1 500 0 1 [] [])) = Some p'"
    "written p' = [''S1,500,0,1,,\<newline>'']"
    unfolding c h(4) by auto
  with h(1,2) z show ?thesis by simp
qed

text \<open>
  Claim C5 as it is stated fails in a session whose device reported the skip frequency 500:
  there channel 1 with frequency 500 is rejected like frequency 0.
\<close>

theorem write_channel_one_counterexample:
  "connected ((connected_radio [])\<lparr>skip_freq_value := Some 500\<rparr>)
   \<and> write_channel ((connected_radio [])\<lparr>skip_freq_value := Some 500\<rparr>) 1 500 0 1 [] []
       = ((connected_radio [])\<lparr>skip_freq_value := Some 500\<rparr>, False,
          [''ERROR: Channel 1 cannot be set to skip.''])"
  by (simp add: write_channel_def eval_state is_skip_freq_def)


section \<open>Skip-state resolver\<close>

text \<open>
  Claim C6 (as amended). \<open>is_channel_skipped\<close> returns false when no configuration is
  loaded, or the loaded configuration holds no channel records, or no record is given and
  the configuration has none with that channel number, or the record's frequency is absent.
  Otherwise, for the record given (or else the first one of the configuration with that
  channel number), it returns whether the frequency equals the skip frequency when that is
  known, else whether it equals 0.
\<close>

theorem is_channel_skipped_rule:
  "(config r = None \<longrightarrow> \<not> is_channel_skipped r ch_num channel_data)
   \<and> (\<forall>cfg. config r = Some cfg \<and> channels cfg = [] \<longrightarrow>
         \<not> is_channel_skipped r ch_num channel_data)
   \<and> (\<forall>cfg. config r = Some cfg \<and> (\<forall>c \<in> set (channels cfg). channel c \<noteq> Some ch_num) \<longrightarrow>
         \<not> is_channel_skipped r ch_num None)
   \<and> (\<forall>cfg d. config r = Some cfg \<and> channels cfg \<noteq> []
         \<and> (channel_data = Some d
              \<or> channel_data = None \<and> find (\<lambda>c. channel c = Some ch_num) (channels cfg) = Some d) \<longrightarrow>
         (freq_khz d = None \<longrightarrow> \<not> is_channel_skipped r ch_num channel_data)
         \<and> (\<forall>f. freq_khz d = Some f \<longrightarrow>
               (is_channel_skipped r ch_num channel_data \<longleftrightarrow>
                  f = (case skip_freq_value r of Some sv \<Rightarrow> sv | None \<Rightarrow> 0))))"
proof (intro conjI allI impI, goal_cases)
  case 1
  then show ?case by (simp add: is_channel_skipped_def)
next
  case (2 cfg)
  then show ?case by (simp add: is_channel_skipped_def)
next
  case (3 cfg)
  then have "find (\<lambda>c. channel c = Some ch_num) (channels cfg) = None"
    by (simp add: find_None_iff)
  with 3 show ?case by (simp add: is_channel_skipped_def)
next
  case (4 cfg d)
  then show ?case by (auto simp: is_channel_skipped_def)
next
  case (5 cfg d f)
  then show ?case by (auto simp: is_channel_skipped_def split: option.splits)
qed

theorem is_channel_skipped_rule_witness:
  "config (new_radio\<lparr>config := Some (empty_config\<lparr>channels := [example_channel 5 500]\<rparr>),
                      skip_freq_value := Some 500\<rparr>)
     = Some (empty_config\<lparr>channels := [example_channel 5 500]\<rparr>)
   \<and> find (\<lambda>c. channel c = Some 5) [example_channel 5 500] = Some (example_channel 5 500)
   \<and> freq_khz (example_channel 5 500) = Some 500
   \<and> is_channel_skipped
        (new_radio\<lparr>config := Some (empty_config\<lparr>channels := [example_channel 5 500]\<rparr>),
                     skip_freq_value := Some 500\<rparr>) 5 None
   \<and> \<not> is_channel_skipped
          (new_radio\<lparr>config := Some (empty_config\<lparr>channels := [example_channel 5 500]\<rparr>),
                       skip_freq_value := Some 500\<rparr>) 6 None"
proof -
  let ?cfg = "empty_config\<lparr>channels := [example_channel 5 500]\<rparr>"
  let ?r = "new_radio\<lparr>config := Some ?cfg, skip_freq_value := Some 500\<rparr>"
  have c: "config ?r = Some ?cfg" by simp
  have ne: "channels ?cfg \<noteq> []" by simp
  have f: "find (\<lambda>c. channel c = Some 5) (channels ?cfg) = Some (example_channel 5 500)"
    by (simp add: example_channel_def)
  have q: "freq_khz (example_channel 5 500) = Some 500" by (simp add: example_channel_def)
  have s: "skip_freq_value ?r = Some 500" by simp
  have a: "\<forall>c \<in> set (channels ?cfg). channel c \<noteq> Some 6" by (simp add: example_channel_def)
  from is_channel_skipped_rule [of ?r 5 None] c ne f q
  have "is_channel_skipped ?r 5 None \<longleftrightarrow>
            (500::int) = (case skip_freq_value ?r of Some sv \<Rightarrow> sv | None \<Rightarrow> 0)"
    by blast
  then have 1: "is_channel_skipped ?r 5 None" unfolding s by simp
  from is_channel_skipped_rule [of ?r 6 None] c a
  have 2: "\<not> is_channel_skipped ?r 6 None" by blast
  from c f q 1 2 show ?thesis by simp
qed

text \<open>
  Claim C6 as it is stated fails for a loaded configuration without channel records: the
  guard on the channel list answers false before the record that was passed is looked at,
  here a record with frequency 0 while no skip frequency is known.
\<close>

theorem is_channel_skipped_counterexample:
  "config (new_radio\<lparr>config := Some empty_config\<rparr>) \<noteq> None
   \<and> freq_khz (example_channel 5 0) = Some 0
   \<and> skip_freq_value (new_radio\<lparr>config := Some empty_config\<rparr>) = None
   \<and> \<not> is_channel_skipped (new_radio\<lparr>config := Some empty_config\<rparr>) 5
          (Some (example_channel 5 0))"
  by (simp add: is_channel_skipped_def new_radio_def empty_config_def example_channel_def)

section \<open>Configuration reader: the FM offset line\<close>

lemma py_split_nonempty: "py_split sep s \<noteq> []"
  by (induction s) (auto split: list.splits)

lemma hd_py_split: "hd (py_split sep s) = takeWhile (\<lambda>c. c \<noteq> sep) s"
  using py_split_nonempty [of sep] by (induction s) (auto split: list.splits)

lemma startswith_Cons2: "startswith (a # b # s) [c, d] \<longleftrightarrow> a = c \<and> b = d"
  by (simp add: startswith_def)

text \<open>
  Claim C8 (as amended). For every dump line that begins with \<open>o:\<close>, the reader takes
  the remainder of the line, stripped, up to its first colon: when that text is an integer,
  \<open>fm_offset_khz\<close> is set to it and nothing else changes; otherwise the configuration is
  left as it is and a warning is reported.
\<close>

theorem handle_line_fm_offset:
  assumes "startswith line ''o:''"
  shows "handle_line r cd lines_read expected_channels line =
           (case py_int (takeWhile (\<lambda>c. c \<noteq> CHR '':'') (strip (drop 2 line))) of
              Some val \<Rightarrow> (r, cd\<lparr>fm_offset_khz := Some val\<rparr>, expected_channels)
            | None \<Rightarrow>
                (update_status r (''Warning: Could not parse FM offset: '' @ line),
                 cd, expected_channels))"
proof -
  from assms obtain rest where l: "line = CHR ''o'' # CHR '':'' # rest"
    by (cases line; cases "tl line"; auto simp: startswith_def)
  have p: "(case py_split (CHR '':'') (strip (drop 2 line)) of [] \<Rightarrow> None | p0 # x \<Rightarrow> py_int p0)
           = py_int (takeWhile (\<lambda>c. c \<noteq> CHR '':'') (strip (drop 2 line)))"
    using py_split_nonempty [of "CHR '':''" "strip (drop 2 line)"]
          hd_py_split [of "CHR '':''" "strip (drop 2 line)"]
    by (cases "py_split (CHR '':'') (strip (drop 2 line))") auto
  have n: "\<not> startswith line ''r:''" "\<not> startswith line ''v:''" "\<not> startswith line ''m:''"
          "\<not> startswith line ''s:''"
    unfolding l startswith_Cons2 by simp_all
  show ?thesis
    unfolding handle_line_def p using n assms by simp
qed

theorem handle_line_fm_offset_witness:
  "startswith ''o:-100:5'' ''o:''
   \<and> fm_offset_khz (fst (snd (handle_line new_radio empty_config 5 None ''o:-100:5''))) = Some (- 100)"
proof -
  have s: "startswith ''o:-100:5'' ''o:''" by (simp add: startswith_def)
  have t: "takeWhile (\<lambda>c. c \<noteq> CHR '':'') (strip (drop 2 ''o:-100:5'')) = ''-100''"
    by (simp add: strip_def is_space_def)
  have p: "py_int ''-100'' = Some (- 100)"
    by (simp add: py_int_def py_nat_def strip_def is_space_def is_digit_def digit_val_def)
  from handle_line_fm_offset [OF s, of new_radio empty_config 5 None] s show ?thesis
    unfolding t p by simp
qed

text \<open>
  Claim C8 as it is stated fails on a line whose remainder has a comma: the first
  comma-separated field of \<open>o:100,5\<close> is the integer 100, but the reader splits at colons,
  fails to read \<open>100,5\<close> as an integer and leaves the offset unset.
\<close>

theorem handle_line_fm_offset_counterexample:
  "startswith ''o:100,5'' ''o:''
   \<and> py_int (hd (py_split (CHR '','') (strip (drop 2 ''o:100,5'')))) = Some 100
   \<and> fm_offset_khz (fst (snd (handle_line new_radio empty_config 5 None ''o:100,5''))) = None"
  by (simp add: handle_line_def startswith_def strip_def is_space_def py_int_def py_nat_def
        is_digit_def digit_val_def update_status_def empty_config_def)


section \<open>Configuration reader: timeouts\<close>

lemma handle_line_expected:
  "handle_line r cd n e line = (r2, cd2, e2) \<Longrightarrow> e = memory_positions cd \<Longrightarrow>
   e2 = memory_positions cd2"
  by (auto simp: handle_line_def Let_def split: if_splits option.splits)

lemma read_loop_timeout:
  "read_line r = (r1, None) \<Longrightarrow>
   read_loop r cd n e =
     (if (case e of None \<Rightarrow> False | Some k \<Rightarrow> int (length (channels cd)) < k)
      then (update_status r1
              (timeout_warning (length (channels cd)) (case e of Some k \<Rightarrow> k | None \<Rightarrow> 0)),
            Some cd)
      else if n = 0
      then (update_status r1 ''ERROR: No response received from radio for 's' command.'', None)
      else (r1, Some cd))"
  by (subst read_loop.simps) simp

lemma read_loop_complete:
  "read_line r = (r1, Some line) \<Longrightarrow> handle_line r1 cd (Suc n) e line = (r2, cd2, e2) \<Longrightarrow>
   complete e2 cd2 \<Longrightarrow> read_loop r cd n e = (fst (read_line r2), Some cd2)"
  by (subst read_loop.simps) (simp add: complete_def)

lemma read_loop_continue:
  "read_line r = (r1, Some line) \<Longrightarrow> handle_line r1 cd (Suc n) e line = (r2, cd2, e2) \<Longrightarrow>
   \<not> complete e2 cd2 \<Longrightarrow> read_loop r cd n e = read_loop r2 cd2 (Suc n) e2"
  by (subst read_loop.simps) (simp add: complete_def)

lemma read_loop_cases [consumes 0, case_names timeout complete continue]:
  assumes "\<And>r1. read_line r = (r1, None) \<Longrightarrow> P"
    and "\<And>r1 line r2 cd2 e2. read_line r = (r1, Some line) \<Longrightarrow>
          handle_line r1 cd (Suc n) e line = (r2, cd2, e2) \<Longrightarrow> complete e2 cd2 \<Longrightarrow> P"
    and "\<And>r1 line r2 cd2 e2. read_line r = (r1, Some line) \<Longrightarrow>
          handle_line r1 cd (Suc n) e line = (r2, cd2, e2) \<Longrightarrow> \<not> complete e2 cd2 \<Longrightarrow> P"
  shows P
proof -
  obtain r1 l where rl: "read_line r = (r1, l)" by (cases "read_line r")
  show P
  proof (cases l)
    case None
    with rl assms(1) show P by simp
  next
    case (Some line)
    obtain r2 cd2 e2 where "handle_line r1 cd (Suc n) e line = (r2, cd2, e2)"
      by (cases "handle_line r1 cd (Suc n) e line")
    with rl Some assms(2,3) show P by (cases "complete e2 cd2") auto
  qed
qed

lemma read_loop_partial_warning:
  "read_loop r cd n e = (r', Some cd') \<Longrightarrow> e = memory_positions cd \<Longrightarrow>
   memory_positions cd' = Some k \<Longrightarrow> int (length (channels cd')) < k \<Longrightarrow>
   timeout_warning (length (channels cd')) k \<in> set (status_log r')"
proof (induction r cd n e rule: read_loop.induct)
  case (1 r cd n e)
  show ?case
  proof (cases rule: read_loop_cases [of r _ cd n e])
    case (timeout r1)
    with "1.prems" show ?thesis
      by (auto simp: read_loop_timeout update_status_def split: if_splits option.splits)
  next
    case (complete r1 line r2 cd2 e2)
    then have "read_loop r cd n e = (fst (read_line r2), Some cd2)"
      by (rule read_loop_complete)
    with "1.prems"(1) have "cd' = cd2" by simp
    moreover have "e2 = memory_positions cd2"
      using handle_line_expected [OF complete(2) "1.prems"(2)] .
    ultimately show ?thesis using complete(3) "1.prems"(3,4) by (simp add: complete_def)
  next
    case (continue r1 line r2 cd2 e2)
    then have eq: "read_loop r cd n e = read_loop r2 cd2 (Suc n) e2"
      by (rule read_loop_continue)
    have inv: "e2 = memory_positions cd2"
      using handle_line_expected [OF continue(2) "1.prems"(2)] .
    have nc: "\<not> (case e2 of None \<Rightarrow> False | Some n \<Rightarrow> n \<le> int (length (channels cd2)))"
      using continue(3) by (simp add: complete_def)
    have "read_loop r2 cd2 (Suc n) e2 = (r', Some cd')"
      using "1.prems"(1) eq by simp
    then show ?thesis
      using "1.IH" [OF continue(1) [symmetric] refl continue(2) [symmetric] refl nc]
            "1.prems"(3,4) inv
      by blast
  qed
qed

lemma read_loop_some:
  "0 < n \<Longrightarrow> \<exists>cd'. snd (read_loop r cd n e) = Some cd'"
proof (induction r cd n e rule: read_loop.induct)
  case (1 r cd n e)
  show ?case
  proof (cases rule: read_loop_cases [of r _ cd n e])
    case (timeout r1)
    with "1.prems" show ?thesis by (simp add: read_loop_timeout)
  next
    case (complete r1 line r2 cd2 e2)
    then show ?thesis by (simp add: read_loop_complete)
  next
    case (continue r1 line r2 cd2 e2)
    then have eq: "read_loop r cd n e = read_loop r2 cd2 (Suc n) e2"
      by (rule read_loop_continue)
    have nc: "\<not> (case e2 of None \<Rightarrow> False | Some n \<Rightarrow> n \<le> int (length (channels cd2)))"
      using continue(3) by (simp add: complete_def)
    show ?thesis
      using "1.IH" [OF continue(1) [symmetric] refl continue(2) [symmetric] refl nc]
      by (simp add: eq)
  qed
qed


lemma read_line_silent:
  assumes "serial_conn r = Some p" "is_open p"
    and "\<not> (\<exists>l rest. incoming p = Line l # rest \<and> l \<noteq> [])"
  shows "\<exists>r1. read_line r = (r1, None) \<and> config r1 = config r"
  using assms
  by (auto simp: read_line_def Let_def update_status_def
           split: list.splits rx_event.splits)

lemma read_line_first:
  assumes "serial_conn r = Some p" "is_open p" "incoming p = Line l # rest" "l \<noteq> []"
  shows "\<exists>r1. read_line r = (r1, Some (strip l))"
  using assms by (simp add: read_line_def Let_def)

lemma read_configuration_unfold:
  assumes "serial_conn r = Some p" "is_open p" "write_error p = None"
  defines "r3 \<equiv> (update_status
                    (r\<lparr>serial_conn := Some (p\<lparr>written := written p @ [terminated ''s'']\<rparr>)\<rparr>)
                    ''Reading configuration from radio...'')
                  \<lparr>config := None, max_channels := None, skip_freq_value := None\<rparr>"
  shows "read_configuration r =
           (case read_loop r3 empty_config 0 None of
              (r4, None) \<Rightarrow> (r4, None)
            | (r4, Some cd) \<Rightarrow>
                (update_status (r4\<lparr>config := Some cd\<rparr>)
                   (''Configuration read complete. Found ''
                    @ channels_text (max_channels r4) @ '' channels.''),
                 Some cd))"
  unfolding read_configuration_def send_command_written [OF assms(1-3)] r3_def
  by (simp add: Let_def split: prod.splits option.splits)

lemma handle_line_config:
  "snd (handle_line r cd n e line) = snd (handle_line r' cd n e line)"
  by (auto simp: handle_line_def Let_def split: option.splits)

lemma read_line_silent_port:
  assumes "serial_conn r = Some p" "is_open p" "silent (incoming p)"
  shows "\<exists>r1. read_line r = (r1, None)"
  using assms
  by (auto simp: read_line_def Let_def silent_def split: list.splits rx_event.splits)

lemma read_line_next:
  assumes "serial_conn r = Some p" "is_open p" "incoming p = Line l # evs" "l \<noteq> []"
  shows "read_line r = (r\<lparr>serial_conn := Some (p\<lparr>incoming := evs\<rparr>)\<rparr>, Some (strip l))"
  using assms by (simp add: read_line_def Let_def)

lemma read_loop_lines:
  assumes "serial_conn r = Some p" and "is_open p"
    and "incoming p = map Line ls @ stop" and "\<forall>l \<in> set ls. l \<noteq> []" and "silent stop"
    and "\<forall>k \<le> length ls. \<not> complete (snd (lines_config (cd, e) n (map strip (take k ls))))
                                    (fst (lines_config (cd, e) n (map strip (take k ls))))"
    and "0 < n + length ls"
    and "lines_config (cd, e) n (map strip ls) = (cd', e')"
  shows "\<exists>r'. read_loop r cd n e = (r', Some cd')
             \<and> (\<forall>k. e' = Some k \<longrightarrow>
                    timeout_warning (length (channels cd')) k \<in> set (status_log r'))"
  using assms
proof (induction ls arbitrary: r p cd e n)
  case Nil
  then have s: "silent (incoming p)" by simp
  from read_line_silent_port [OF Nil.prems(1,2) s]
  obtain r1 where rl: "read_line r = (r1, None)" by blast
  from Nil.prems(8) have eq: "cd' = cd" "e' = e" by simp_all
  from Nil.prems(6) have nc: "\<not> complete e cd" by simp
  from Nil.prems(7) have n: "n \<noteq> 0" by simp
  show ?case
  proof (cases e)
    case None
    then show ?thesis using rl n eq by (simp add: read_loop_timeout)
  next
    case (Some k)
    with nc have "int (length (channels cd)) < k" by (simp add: complete_def)
    then show ?thesis using rl Some eq by (simp add: read_loop_timeout update_status_def)
  qed
next
  case (Cons l ls)
  have l: "l \<noteq> []" and ls: "\<forall>l \<in> set ls. l \<noteq> []" using Cons.prems(4) by auto
  have inc: "incoming p = Line l # (map Line ls @ stop)" using Cons.prems(3) by simp
  let ?p1 = "p\<lparr>incoming := map Line ls @ stop\<rparr>"
  let ?r1 = "r\<lparr>serial_conn := Some ?p1\<rparr>"
  have rl: "read_line r = (?r1, Some (strip l))"
    by (rule read_line_next [OF Cons.prems(1,2) inc l])
  obtain r2 cd2 e2 where hl: "handle_line ?r1 cd (Suc n) e (strip l) = (r2, cd2, e2)"
    by (cases "handle_line ?r1 cd (Suc n) e (strip l)")
  have step: "snd (handle_line new_radio cd (Suc n) e (strip l)) = (cd2, e2)"
    using handle_line_config [of new_radio cd "Suc n" e "strip l" ?r1] hl by simp
  have lc: "lines_config (cd, e) n (map strip (take (Suc k) (l # ls)))
            = lines_config (cd2, e2) (Suc n) (map strip (take k ls))" for k
    by (simp add: step)
  have nc: "\<not> complete e2 cd2"
    using Cons.prems(6) [rule_format, of "Suc 0"] lc [of 0] by simp
  have r2: "serial_conn r2 = Some ?p1"
    using handle_line_serial_conn [OF hl] by simp
  have p1: "is_open ?p1" "incoming ?p1 = map Line ls @ stop"
    using Cons.prems(2) by simp_all
  have all: "\<forall>k \<le> length ls.
      \<not> complete (snd (lines_config (cd2, e2) (Suc n) (map strip (take k ls))))
                  (fst (lines_config (cd2, e2) (Suc n) (map strip (take k ls))))"
  proof (intro allI impI)
    fix k assume "k \<le> length ls"
    then have "Suc k \<le> length (l # ls)" by simp
    from Cons.prems(6) [rule_format, OF this] show
      "\<not> complete (snd (lines_config (cd2, e2) (Suc n) (map strip (take k ls))))
                   (fst (lines_config (cd2, e2) (Suc n) (map strip (take k ls))))"
      unfolding lc .
  qed
  have fin: "lines_config (cd2, e2) (Suc n) (map strip ls) = (cd', e')"
    using Cons.prems(8) by (simp add: step)
  from Cons.IH [OF r2 p1(1) p1(2) ls Cons.prems(5) all _ fin]
  obtain r' where "read_loop r2 cd2 (Suc n) e2 = (r', Some cd')"
    "\<forall>k. e' = Some k \<longrightarrow> timeout_warning (length (channels cd')) k \<in> set (status_log r')"
    by auto
  then show ?case using read_loop_continue [OF rl hl nc] by simp
qed

text \<open>
  Claim C7. On a connected session whose port accepts the \<open>s\<close> command, let the device
  send some lines and then fall silent (a timeout or a read error) with the declared
  channel count not reached after any of them. When it sent no line at all,
  \<open>read_configuration\<close> returns absence and the session holds no configuration. When it
  sent at least one line, \<open>read_configuration\<close> returns, and stores in the session, the
  partial configuration that those lines amount to, and where a channel count was declared
  the warning that gives the channels received and the count declared has been reported.
\<close>

theorem read_configuration_timeout:
  assumes "serial_conn r = Some p" and "is_open p" and "write_error p = None"
    and "incoming p = map Line ls @ stop" and "\<forall>l \<in> set ls. l \<noteq> []" and "silent stop"
    and "\<forall>k \<le> length ls.
           \<not> complete (snd (lines_config (empty_config, None) 0 (map strip (take k ls))))
                       (fst (lines_config (empty_config, None) 0 (map strip (take k ls))))"
  shows "(ls = [] \<longrightarrow>
            snd (read_configuration r) = None \<and> config (fst (read_configuration r)) = None)
       \<and> (ls \<noteq> [] \<longrightarrow>
            snd (read_configuration r)
              = Some (fst (lines_config (empty_config, None) 0 (map strip ls)))
            \<and> config (fst (read_configuration r))
              = Some (fst (lines_config (empty_config, None) 0 (map strip ls)))
            \<and> (\<forall>k. snd (lines_config (empty_config, None) 0 (map strip ls)) = Some k \<longrightarrow>
                  timeout_warning
                    (length (channels (fst (lines_config (empty_config, None) 0 (map strip ls)))))
                    k
                  \<in> set (status_log (fst (read_configuration r)))))"
proof -
  define p1 where "p1 = p\<lparr>written := written p @ [terminated ''s'']\<rparr>"
  define r3 where "r3 = (update_status (r\<lparr>serial_conn := Some p1\<rparr>)
                    ''Reading configuration from radio...'')
                  \<lparr>config := None, max_channels := None, skip_freq_value := None\<rparr>"
  have rc: "read_configuration r =
           (case read_loop r3 empty_config 0 None of
              (r4, None) \<Rightarrow> (r4, None)
            | (r4, Some cd) \<Rightarrow>
                (update_status (r4\<lparr>config := Some cd\<rparr>)
                   (''Configuration read complete. Found ''
                    @ channels_text (max_channels r4) @ '' channels.''),
                 Some cd))"
    unfolding r3_def p1_def by (rule read_configuration_unfold [OF assms(1-3)])
  have r3: "serial_conn r3 = Some p1" "is_open p1" "incoming p1 = map Line ls @ stop"
    "config r3 = None"
    using assms(2,4) by (simp_all add: r3_def p1_def update_status_def)
  have a: "snd (read_configuration r) = None \<and> config (fst (read_configuration r)) = None"
    if "ls = []"
  proof -
    have "\<not> (\<exists>l rest. incoming p1 = Line l # rest \<and> l \<noteq> [])"
      using that assms(6) r3(3) by (auto simp: silent_def)
    then obtain r1 where "read_line r3 = (r1, None)" "config r1 = None"
      using read_line_silent [OF r3(1,2)] r3(4) by auto
    then show ?thesis
      unfolding rc by (simp add: read_loop_timeout update_status_def)
  qed
  obtain cd' e' where fin: "lines_config (empty_config, None) 0 (map strip ls) = (cd', e')"
    by (cases "lines_config (empty_config, None) 0 (map strip ls)")
  have b: "snd (read_configuration r) = Some cd'
            \<and> config (fst (read_configuration r)) = Some cd'
            \<and> (\<forall>k. e' = Some k \<longrightarrow>
                  timeout_warning (length (channels cd')) k
                    \<in> set (status_log (fst (read_configuration r))))"
    if "ls \<noteq> []"
  proof -
    from that have pos: "0 < 0 + length ls" by simp
    from read_loop_lines [OF r3(1,2,3) assms(5,6,7) pos fin]
    obtain r' where "read_loop r3 empty_config 0 None = (r', Some cd')"
      "\<forall>k. e' = Some k \<longrightarrow> timeout_warning (length (channels cd')) k \<in> set (status_log r')"
      by blast
    then show ?thesis unfolding rc by (simp add: update_status_def)
  qed
  from a b show ?thesis unfolding fin by simp
qed

theorem read_configuration_timeout_witness:
  "serial_conn (connected_radio short_dump) = Some (open_port short_dump)
   \<and> incoming (open_port short_dump)
       = map Line [''m:2\<newline>'', ''1,9000,0,1,,\<newline>''] @ [Timeout]
   \<and> silent [Timeout]
   \<and> snd (read_configuration (connected_radio short_dump))
       = Some (empty_config\<lparr>memory_positions := Some 2, channels := [example_channel 1 9000]\<rparr>)
   \<and> ''Warning: Read timeout before receiving all expected channels (1/2).''
       \<in> set (status_log (fst (read_configuration (connected_radio short_dump))))
   \<and> snd (read_configuration (connected_radio [Timeout])) = None"
proof -
  let ?ls = "[''m:2\<newline>'', ''1,9000,0,1,,\<newline>'']"
  let ?cd = "empty_config\<lparr>memory_positions := Some 2, channels := [example_channel 1 9000]\<rparr>"
  have h: "serial_conn (connected_radio short_dump) = Some (open_port short_dump)"
    "is_open (open_port short_dump)" "write_error (open_port short_dump) = None"
    by (simp_all add: eval_state)
  have i: "incoming (open_port short_dump) = map Line ?ls @ [Timeout]"
    by (simp add: open_port_def short_dump_def)
  have ne: "\<forall>l \<in> set ?ls. l \<noteq> []" by simp
  have s: "silent [Timeout]" by (simp add: silent_def)
  have l0: "lines_config (empty_config, None) 0 (map strip (take 0 ?ls)) = (empty_config, None)"
    by simp
  have l1: "lines_config (empty_config, None) 0 (map strip (take 1 ?ls))
            = (empty_config\<lparr>memory_positions := Some 2\<rparr>, Some 2)"
    by code_simp
  have l2: "lines_config (empty_config, None) 0 (map strip (take 2 ?ls)) = (?cd, Some 2)"
    by code_simp
  have l2': "lines_config (empty_config, None) 0 (map strip ?ls) = (?cd, Some 2)"
    using l2 by simp
  have nc: "\<forall>k \<le> length ?ls.
           \<not> complete (snd (lines_config (empty_config, None) 0 (map strip (take k ?ls))))
                       (fst (lines_config (empty_config, None) 0 (map strip (take k ?ls))))"
  proof (intro allI impI)
    fix k assume "k \<le> length ?ls"
    then have "k = 0 \<or> k = 1 \<or> k = 2" by auto
    then show "\<not> complete (snd (lines_config (empty_config, None) 0 (map strip (take k ?ls))))
                       (fst (lines_config (empty_config, None) 0 (map strip (take k ?ls))))"
      using l0 l1 l2 by (auto simp: complete_def empty_config_def)
  qed
  have t: "timeout_warning (length (channels ?cd)) 2
           = ''Warning: Read timeout before receiving all expected channels (1/2).''"
    by (simp add: timeout_warning_def eval_text)
  note w = read_configuration_timeout [OF h i ne s nc]
  from w have 1: "snd (read_configuration (connected_radio short_dump)) = Some ?cd"
    unfolding l2' by simp
  from w have 2: "timeout_warning (length (channels ?cd)) 2
             \<in> set (status_log (fst (read_configuration (connected_radio short_dump))))"
    unfolding l2' by simp
  have h0: "serial_conn (connected_radio [Timeout]) = Some (open_port [Timeout])"
    "is_open (open_port [Timeout])" "write_error (open_port [Timeout]) = None"
    "incoming (open_port [Timeout]) = map Line [] @ [Timeout]"
    by (simp_all add: eval_state)
  have nc0: "\<forall>k \<le> length ([]::string list).
           \<not> complete (snd (lines_config (empty_config, None) 0 (map strip (take k []))))
                       (fst (lines_config (empty_config, None) 0 (map strip (take k []))))"
    by (simp add: complete_def)
  from read_configuration_timeout [OF h0 _ s nc0]
  have 3: "snd (read_configuration (connected_radio [Timeout])) = None" by simp
  from h(1) i s 1 2 3 show ?thesis unfolding t by simp
qed

section \<open>Configuration reader: the channels accumulated\<close>

lemma parse_channel_length: "parse_channel parts = Some c \<Longrightarrow> length parts = 6"
  by (auto simp: parse_channel_def split: list.splits)

lemma handle_line_channels:
  assumes "handle_line r cd n e line = (r2, cd2, e2)"
  shows "channels cd2 = channels cd @ (case row_channel line of None \<Rightarrow> [] | Some c \<Rightarrow> [c])"
proof (cases "row_channel line")
  case None
  then show ?thesis using assms parse_channel_length [of "py_split (CHR '','') line"]
    by (auto simp: handle_line_def row_channel_def Let_def split: if_splits option.splits)
next
  case (Some c)
  then have n: "\<not> startswith line ''r:''" "\<not> startswith line ''v:''" "\<not> startswith line ''m:''"
      "\<not> startswith line ''s:''" "\<not> startswith line ''o:''" "\<not> startswith line ''a:''"
      "\<not> startswith line ''f:''"
    and pc: "parse_channel (py_split (CHR '','') line) = Some c"
    by (auto simp: row_channel_def split: if_splits)
  from pc have len: "length (py_split (CHR '','') line) = 6" by (rule parse_channel_length)
  show ?thesis using assms n pc len Some
    by (auto simp: handle_line_def Let_def split: if_splits option.splits)
qed

lemma read_line_some:
  assumes "read_line r = (r1, Some line)" "serial_conn r = Some p"
  shows "\<exists>l evs. incoming p = Line l # evs \<and> line = strip l
                 \<and> serial_conn r1 = Some (p\<lparr>incoming := evs\<rparr>)"
  using assms
  by (auto simp: read_line_def Let_def update_status_def
           split: if_splits list.splits rx_event.splits)

lemma read_loop_channels:
  "read_loop r cd n e = (r', Some cd') \<Longrightarrow> serial_conn r = Some p \<Longrightarrow>
   \<exists>rest. channels cd @ sent_channels (incoming p) = channels cd' @ rest"
proof (induction r cd n e arbitrary: p rule: read_loop.induct)
  case (1 r cd n e)
  show ?case
  proof (cases rule: read_loop_cases [of r _ cd n e])
    case (timeout r1)
    with "1.prems"(1) have "cd' = cd"
      by (auto simp: read_loop_timeout split: if_splits)
    then show ?thesis by blast
  next
    case (complete r1 line r2 cd2 e2)
    from read_line_some [OF complete(1) "1.prems"(2)]
    obtain l evs where l: "incoming p = Line l # evs" "line = strip l" by blast
    from read_loop_complete [OF complete] "1.prems"(1) have "cd' = cd2" by simp
    with handle_line_channels [OF complete(2)] l show ?thesis by simp
  next
    case (continue r1 line r2 cd2 e2)
    from read_line_some [OF continue(1) "1.prems"(2)]
    obtain l evs where l: "incoming p = Line l # evs" "line = strip l"
      "serial_conn r1 = Some (p\<lparr>incoming := evs\<rparr>)" by blast
    have r2: "serial_conn r2 = Some (p\<lparr>incoming := evs\<rparr>)"
      using handle_line_serial_conn [OF continue(2)] l(3) by simp
    have eq: "read_loop r2 cd2 (Suc n) e2 = (r', Some cd')"
      using read_loop_continue [OF continue] "1.prems"(1) by simp
    have nc: "\<not> (case e2 of None \<Rightarrow> False | Some n \<Rightarrow> n \<le> int (length (channels cd2)))"
      using continue(3) by (simp add: complete_def)
    from "1.IH" [OF continue(1) [symmetric] refl continue(2) [symmetric] refl nc eq r2]
    obtain rest where "channels cd2 @ sent_channels evs = channels cd' @ rest" by auto
    with handle_line_channels [OF continue(2)] l show ?thesis by simp
  qed
qed

text \<open>
  Claim C9 (as amended). The reader checks neither the range nor the uniqueness of channel
  numbers: the channel records of a configuration it returns are, in arrival order, a
  leading part of the channel rows the device sent. So their channel numbers are 1-based and
  at most the declared number of memory positions, and pairwise distinct, whenever those of
  the rows the device sent are.
\<close>

theorem read_configuration_channels:
  assumes "serial_conn r = Some p" and "is_open p" and "write_error p = None"
    and "snd (read_configuration r) = Some cd"
  shows "(\<exists>rest. sent_channels (incoming p) = channels cd @ rest)
       \<and> (\<forall>M. memory_positions cd = Some M
               \<and> (\<forall>c \<in> set (sent_channels (incoming p)).
                     \<exists>k. channel c = Some k \<and> 1 \<le> k \<and> k \<le> M) \<longrightarrow>
           (\<forall>c \<in> set (channels cd). \<exists>k. channel c = Some k \<and> 1 \<le> k \<and> k \<le> M))
       \<and> (distinct (map channel (sent_channels (incoming p))) \<longrightarrow>
           distinct (map channel (channels cd)))"
proof -
  define r3 where "r3 = (update_status
                    (r\<lparr>serial_conn := Some (p\<lparr>written := written p @ [terminated ''s'']\<rparr>)\<rparr>)
                    ''Reading configuration from radio...'')
                  \<lparr>config := None, max_channels := None, skip_freq_value := None\<rparr>"
  have rc: "read_configuration r =
           (case read_loop r3 empty_config 0 None of
              (r4, None) \<Rightarrow> (r4, None)
            | (r4, Some cd) \<Rightarrow>
                (update_status (r4\<lparr>config := Some cd\<rparr>)
                   (''Configuration read complete. Found ''
                    @ channels_text (max_channels r4) @ '' channels.''),
                 Some cd))"
    unfolding r3_def by (rule read_configuration_unfold [OF assms(1-3)])
  have r3: "serial_conn r3 = Some (p\<lparr>written := written p @ [terminated ''s'']\<rparr>)"
    by (simp add: r3_def update_status_def)
  obtain r4 res where loop: "read_loop r3 empty_config 0 None = (r4, res)"
    by (cases "read_loop r3 empty_config 0 None")
  from assms(4) have res: "res = Some cd" unfolding rc loop by (cases res) auto
  from read_loop_channels [OF loop [unfolded res] r3]
  obtain rest where pre: "sent_channels (incoming p) = channels cd @ rest"
    by (auto simp: empty_config_def)
  then have sub: "set (channels cd) \<subseteq> set (sent_channels (incoming p))" by auto
  have d: "distinct (map channel (channels cd))"
    if "distinct (map channel (sent_channels (incoming p)))"
    using that unfolding pre by simp
  from pre sub d show ?thesis by blast
qed

lemma example_dump_read:
  "snd (read_configuration (connected_radio example_dump))
     = Some (empty_config\<lparr>memory_positions := Some 2, skip_frequency_value := Some 500,
                          channels := [example_channel 1 9000, example_channel 2 500]\<rparr>)"
  by code_simp

lemma example_dump_sent:
  "sent_channels example_dump = [example_channel 1 9000, example_channel 2 500]"
  by code_simp

theorem read_configuration_channels_witness:
  "serial_conn (connected_radio example_dump) = Some (open_port example_dump)
   \<and> sent_channels (incoming (open_port example_dump))
       = [example_channel 1 9000, example_channel 2 500]
   \<and> snd (read_configuration (connected_radio example_dump))
       = Some (empty_config\<lparr>memory_positions := Some 2, skip_frequency_value := Some 500,
                            channels := [example_channel 1 9000, example_channel 2 500]\<rparr>)
   \<and> list_all (\<lambda>c. \<exists>k. channel c = Some k \<and> 1 \<le> k \<and> k \<le> 2)
        [example_channel 1 9000, example_channel 2 500]
   \<and> distinct (map channel [example_channel 1 9000, example_channel 2 500])"
proof -
  let ?cd = "empty_config\<lparr>memory_positions := Some 2, skip_frequency_value := Some 500,
                          channels := [example_channel 1 9000, example_channel 2 500]\<rparr>"
  have h: "serial_conn (connected_radio example_dump) = Some (open_port example_dump)"
    "is_open (open_port example_dump)" "write_error (open_port example_dump) = None"
    by (simp_all add: eval_state)
  have i: "incoming (open_port example_dump) = example_dump" by (simp add: open_port_def)
  have m: "memory_positions ?cd = Some 2" by simp
  have a: "\<forall>c \<in> set (sent_channels (incoming (open_port example_dump))).
          \<exists>k. channel c = Some k \<and> 1 \<le> k \<and> k \<le> 2"
    unfolding i example_dump_sent by (simp add: example_channel_def)
  have d: "distinct (map channel (sent_channels (incoming (open_port example_dump))))"
    unfolding i example_dump_sent by (simp add: example_channel_def)
  note t = read_configuration_channels [OF h example_dump_read]
  from t m a have "\<forall>c \<in> set (channels ?cd).
              \<exists>k. channel c = Some k \<and> 1 \<le> k \<and> k \<le> 2" by blast
  then have 1: "list_all (\<lambda>c. \<exists>k. channel c = Some k \<and> 1 \<le> k \<and> k \<le> 2)
        [example_channel 1 9000, example_channel 2 500]"
    by (simp add: list_all_iff)
  from t d have 2: "distinct (map channel (channels ?cd))" by blast
  from h(1) example_dump_sent example_dump_read 1 2 show ?thesis unfolding i by simp
qed

text \<open>
  Claim C9 as it is stated fails on a device that declares two memory positions and sends
  the row of channel 5 twice: the read succeeds with both records, neither unique nor
  within the declared range.
\<close>

theorem read_configuration_channels_counterexample:
  "snd (read_configuration (connected_radio repeating_dump))
     = Some (empty_config\<lparr>memory_positions := Some 2,
                          channels := [example_channel 5 100, example_channel 5 100]\<rparr>)
   \<and> \<not> distinct (map channel [example_channel 5 100, example_channel 5 100])
   \<and> channel (example_channel 5 100) = Some 5 \<and> \<not> (5::int) \<le> 2"
proof -
  have "snd (read_configuration (connected_radio repeating_dump))
     = Some (empty_config\<lparr>memory_positions := Some 2,
                          channels := [example_channel 5 100, example_channel 5 100]\<rparr>)"
    by code_simp
  then show ?thesis by (simp add: example_channel_def)
qed


section \<open>Differential import\<close>












lemma find_append:
  "find P (xs @ ys) = (case find P xs of None \<Rightarrow> find P ys | Some x \<Rightarrow> Some x)"
  by (induction xs) auto

lemma fold_dict_find:
  "fold (\<lambda>c m. case channel c of None \<Rightarrow> m | Some n \<Rightarrow> m(n \<mapsto> c)) xs m ch =
     (case find (\<lambda>c. channel c = Some ch) (rev xs) of Some c \<Rightarrow> Some c | None \<Rightarrow> m ch)"
proof (induction xs arbitrary: m)
  case Nil
  then show ?case by simp
next
  case (Cons x xs)
  show ?case
    by (cases "find (\<lambda>c. channel c = Some ch) (rev xs)")
       (auto simp: Cons find_append split: option.splits)
qed

lemma current_channels_dict_find:
  "current_channels_dict cfg ch = find (\<lambda>c. channel c = Some ch) (rev (channels cfg))"
  unfolding current_channels_dict_def fold_dict_find
  by (simp split: option.splits)

lemma find_last:
  assumes "xs = pre @ x # post" and "P x" and "\<forall>y \<in> set post. \<not> P y"
  shows "find P (rev xs) = Some x"
proof -
  have "find P (rev post) = None" using assms(3) by (simp add: find_None_iff)
  then show ?thesis using assms(1,2) by (simp add: find_append)
qed



section \<open>Printing and reading integers\<close>

lemma digit_char_props:
  assumes "d < 10"
  shows "is_digit (digit_char d)" and "digit_val (digit_char d) = d"
    and "\<not> is_space (digit_char d)" and "digit_char d \<noteq> CHR ''-''" and "digit_char d \<noteq> CHR ''+''"
proof -
  from assms have "d \<in> {0, 1, 2, 3, 4, 5, 6, 7, 8, 9}" by auto
  then show "is_digit (digit_char d)" and "digit_val (digit_char d) = d"
    and "\<not> is_space (digit_char d)" and "digit_char d \<noteq> CHR ''-''" and "digit_char d \<noteq> CHR ''+''"
    by (auto simp: digit_char_def is_digit_def digit_val_def is_space_def)
qed

lemma py_digits_all:
  "\<forall>c \<in> set s. is_digit c \<Longrightarrow> py_digits acc s = Some (dec_value acc s)"
  by (induction acc s rule: py_digits.induct) (auto simp: dec_value_def)

lemma digits_of_digits: "\<forall>c \<in> set (digits_of n). is_digit c \<and> \<not> is_space c"
proof (induction n rule: digits_of.induct)
  case (1 n)
  show ?case
  proof (cases "n < 10")
    case True
    then show ?thesis by (subst digits_of.simps) (simp add: digit_char_props)
  next
    case False
    then show ?thesis using 1
      by (subst digits_of.simps) (auto simp: digit_char_props)
  qed
qed

lemma digits_of_value: "dec_value 0 (digits_of n) = n"
proof (induction n rule: digits_of.induct)
  case (1 n)
  show ?case
  proof (cases "n < 10")
    case True
    then show ?thesis by (subst digits_of.simps) (simp add: dec_value_def digit_char_props)
  next
    case False
    then have "dec_value 0 (digits_of (n div 10)) = n div 10" using 1 by simp
    with False show ?thesis
      by (subst digits_of.simps) (simp add: dec_value_def digit_char_props)
  qed
qed

lemma digits_of_nonempty: "digits_of n \<noteq> []"
  by (subst digits_of.simps) simp

lemma py_nat_digits_of: "py_nat (digits_of n) = Some n"
proof -
  obtain c cs where s: "digits_of n = c # cs"
    using digits_of_nonempty [of n] by (cases "digits_of n") auto
  have d: "is_digit c" "\<forall>x \<in> set cs. is_digit x"
    using digits_of_digits [of n] unfolding s by auto
  have "py_nat (c # cs) = Some (dec_value (digit_val c) cs)"
    using d by (simp add: py_nat_def py_digits_all)
  also have "dec_value (digit_val c) cs = dec_value 0 (c # cs)"
    by (simp add: dec_value_def)
  finally show ?thesis unfolding s [symmetric] digits_of_value .
qed

lemma strip_no_space:
  assumes "s = [] \<or> (\<not> is_space (hd s) \<and> \<not> is_space (last s))"
  shows "strip s = s"
proof (cases s)
  case Nil
  then show ?thesis by (simp add: strip_def)
next
  case (Cons c cs)
  with assms have h: "\<not> is_space c" and l: "\<not> is_space (last s)" by auto
  have 1: "dropWhile is_space s = s" using h Cons by simp
  have "rev s \<noteq> []" using Cons by simp
  then obtain x xs where r: "rev s = x # xs" by (cases "rev s") auto
  then have "x = last s" using Cons by (metis hd_rev list.sel(1) list.distinct(1))
  then have 2: "dropWhile is_space (rev s) = rev s"
    using l unfolding r by simp
  show ?thesis unfolding strip_def 1 2 by simp
qed

lemma strip_str_int: "strip (str_int i) = str_int i"
proof -
  have n: "\<And>n. \<forall>c \<in> set (digits_of n). \<not> is_space c" using digits_of_digits by blast
  have "\<forall>c \<in> set (str_int i). \<not> is_space c"
    using n by (auto simp: str_int_def is_space_def)
  moreover have "str_int i \<noteq> []" by (simp add: str_int_def digits_of_nonempty)
  ultimately show ?thesis by (intro strip_no_space) auto
qed

lemma py_int_str_int: "py_int (str_int i) = Some i"
proof (cases "i < 0")
  case True
  have "py_int (str_int i) = map_option (\<lambda>n. - int n) (py_nat (digits_of (nat (- i))))"
    unfolding py_int_def strip_str_int using True by (simp add: str_int_def)
  then show ?thesis using True by (simp add: py_nat_digits_of)
next
  case False
  obtain c cs where s: "digits_of (nat i) = c # cs"
    using digits_of_nonempty [of "nat i"] by (cases "digits_of (nat i)") auto
  have "is_digit c" using digits_of_digits [of "nat i"] unfolding s by simp
  then have c: "c \<noteq> CHR ''-''" "c \<noteq> CHR ''+''" by (auto simp: is_digit_def)
  have "py_int (str_int i) = map_option int (py_nat (digits_of (nat i)))"
    unfolding py_int_def strip_str_int using False c by (simp add: str_int_def s)
  then show ?thesis using False by (simp add: py_nat_digits_of)
qed

lemma str_int_nonempty: "str_int i \<noteq> []"
  by (simp add: str_int_def digits_of_nonempty)

lemma py_int_empty: "py_int [] = None"
  by (simp add: py_int_def strip_def)


section \<open>Export followed by import\<close>

lemma strip_empty: "strip [] = []"
  by (simp add: strip_def)

lemma cell_int_parse: "py_int (strip (cell_int v)) = v"
  by (cases v) (simp_all add: cell_int_def strip_str_int py_int_str_int py_int_empty strip_empty)

lemma cell_text_eq: "cell_text v = text_or_empty v"
  by (simp add: cell_text_def text_or_empty_def)

lemma length_upper [simp]: "length (upper s) = length s"
  by (simp add: upper_def)

lemma validate_row_clean:
  assumes "length p \<le> 4" "length q \<le> 8"
  shows "validate_row r n ch f bw ms (upper p) q =
           (if ch < 1 then Skipped [ChannelOutOfRange n ch]
            else case max_channels r of
                   None \<Rightarrow> Crashed []
                 | Some m \<Rightarrow>
                     if ch > m then Skipped [ChannelOutOfRange n ch]
                     else if f < 0 then Skipped [NegativeFrequency n f]
                     else if bw < 0 then Skipped [NegativeBandwidth n bw]
                     else if ms \<noteq> 0 \<and> ms \<noteq> 1 then Skipped [InvalidMonoStereo n ms]
                     else if ch = 1 \<and> is_skip_freq r f then Skipped [ChannelOneSkip n f]
                     else Stored ch \<lparr>channel = Some ch, freq_khz = Some f,
                                      bandwidth_code = Some bw, mono_stereo_code = Some ms,
                                      pi = Some (upper p), ps = Some q\<rparr> [])"
  using assms by (simp add: validate_row_def Let_def split: option.splits)

lemma import_row_export_row:
  assumes "clean_text c"
  shows "import_row r n (export_row c) =
           (case (channel c, freq_khz c, bandwidth_code c, mono_stereo_code c) of
              (Some ch, Some f, Some bw, Some ms) \<Rightarrow>
                 validate_row r n ch f bw ms (upper (text_or_empty (pi c))) (text_or_empty (ps c))
            | _ \<Rightarrow> import_row r n (export_row c))"
proof (cases "channel c")
  case None
  then show ?thesis by simp
next
  case ch: (Some ch)
  show ?thesis
  proof (cases "freq_khz c")
    case None
    then show ?thesis by (simp add: ch)
  next
    case f: (Some f)
    show ?thesis
    proof (cases "bandwidth_code c")
      case None
      then show ?thesis by (simp add: ch f)
    next
      case bw: (Some bw)
      show ?thesis
      proof (cases "mono_stereo_code c")
        case None
        then show ?thesis by (simp add: ch f bw)
      next
        case ms: (Some ms)
        have nb: "list_ex (\<lambda>field. strip field \<noteq> []) (export_row c)"
          by (simp add: export_row_def ch cell_int_def strip_str_int str_int_nonempty)
        have t: "strip (cell_text (pi c)) = text_or_empty (pi c)"
                "strip (cell_text (ps c)) = text_or_empty (ps c)"
          using assms by (simp_all add: clean_text_def cell_text_eq)
        show ?thesis
          unfolding import_row_def export_row_def
          using nb [unfolded export_row_def]
          by (simp add: cell_int_parse t ch f bw ms)
      qed
    qed
  qed
qed

lemma import_row_export_stored:
  assumes "clean_text c" and "import_row r n (export_row c) = Stored ch d ws"
  shows "channel c = Some ch \<and> d = as_imported c"
proof -
  have len: "length (text_or_empty (pi c)) \<le> 4" "length (text_or_empty (ps c)) \<le> 8"
    and t: "strip (cell_text (pi c)) = text_or_empty (pi c)"
           "strip (cell_text (ps c)) = text_or_empty (ps c)"
    using assms(1) by (simp_all add: clean_text_def cell_text_eq)
  from assms(2) obtain ch0 f bw ms where
    v: "channel c = Some ch0" "freq_khz c = Some f" "bandwidth_code c = Some bw"
       "mono_stereo_code c = Some ms"
    and st: "validate_row r n ch0 f bw ms (upper (text_or_empty (pi c))) (text_or_empty (ps c))
             = Stored ch d ws"
    unfolding import_row_def export_row_def
    by (auto simp: cell_int_parse t split: if_splits option.splits)
  from st have "ch = ch0"
    and "d = \<lparr>channel = Some ch0, freq_khz = Some f, bandwidth_code = Some bw,
              mono_stereo_code = Some ms, pi = Some (upper (text_or_empty (pi c))),
              ps = Some (text_or_empty (ps c))\<rparr>"
    unfolding validate_row_clean [OF len] by (auto split: if_splits option.splits)
  with v show ?thesis by (simp add: as_imported_def)
qed

lemma import_row_export_valid:
  assumes "clean_text c" and "valid_record r c"
  shows "\<exists>ch. channel c = Some ch \<and> import_row r n (export_row c) = Stored ch (as_imported c) []"
proof -
  have len: "length (text_or_empty (pi c)) \<le> 4" "length (text_or_empty (ps c)) \<le> 8"
    using assms(1) by (simp_all add: clean_text_def)
  from assms(2) obtain ch f bw ms m where
    v: "channel c = Some ch" "freq_khz c = Some f" "bandwidth_code c = Some bw"
       "mono_stereo_code c = Some ms" "max_channels r = Some m"
       "1 \<le> ch" "ch \<le> m" "0 \<le> f" "0 \<le> bw" "ms = 0 \<or> ms = 1"
       "\<not> (ch = 1 \<and> is_skip_freq r f)"
    unfolding valid_record_def by blast
  have "import_row r n (export_row c)
          = validate_row r n ch f bw ms (upper (text_or_empty (pi c))) (text_or_empty (ps c))"
    using import_row_export_row [OF assms(1), of r n] v(1-4) by simp
  also have "\<dots> = Stored ch (as_imported c) []"
    unfolding validate_row_clean [OF len] using v by (auto simp: as_imported_def)
  finally show ?thesis using v(1) by simp
qed

lemma needs_write_as_imported:
  "\<not> needs_write r ch (as_imported c) (Some c)"
  by (simp add: needs_write_def as_imported_def text_or_empty_def Let_def)

lemma import_row_no_crash:
  "max_channels r = Some m \<Longrightarrow> import_row r n row \<noteq> Crashed ws"
  by (auto simp: import_row_def validate_row_def Let_def
           split: list.splits option.splits if_splits)

lemma import_rows_no_crash:
  "max_channels r = Some m \<Longrightarrow> import_rows r n rows acc ws = (errs, imported, ws') \<Longrightarrow>
   errs = []"
proof (induction rows arbitrary: n acc ws)
  case Nil
  then show ?case by simp
next
  case (Cons row rows)
  then show ?case
    using import_row_no_crash [OF Cons.prems(1), of "Suc n" row]
    by (cases "import_row r (Suc n) row") auto
qed

lemma import_row_export_stored_valid:
  assumes "clean_text c" and "import_row r n (export_row c) = Stored ch d ws"
  shows "valid_record r c"
proof -
  have len: "length (text_or_empty (pi c)) \<le> 4" "length (text_or_empty (ps c)) \<le> 8"
    and t: "strip (cell_text (pi c)) = text_or_empty (pi c)"
           "strip (cell_text (ps c)) = text_or_empty (ps c)"
    using assms(1) by (simp_all add: clean_text_def cell_text_eq)
  from assms(2) obtain ch0 f bw ms where
    v: "channel c = Some ch0" "freq_khz c = Some f" "bandwidth_code c = Some bw"
       "mono_stereo_code c = Some ms"
    and st: "validate_row r n ch0 f bw ms (upper (text_or_empty (pi c))) (text_or_empty (ps c))
             = Stored ch d ws"
    unfolding import_row_def export_row_def
    by (auto simp: cell_int_parse t split: if_splits option.splits)
  from st obtain m where "max_channels r = Some m" "1 \<le> ch0" "ch0 \<le> m" "0 \<le> f" "0 \<le> bw"
    "ms = 0 \<or> ms = 1" "\<not> (ch0 = 1 \<and> is_skip_freq r f)"
    unfolding validate_row_clean [OF len] by (auto split: if_splits option.splits)
  with v show ?thesis unfolding valid_record_def by blast
qed

lemma import_rows_last_valid:
  assumes "\<forall>c \<in> set cs. clean_text c"
    and "import_rows r n (map export_row cs) acc ws = ([], imported, ws')"
  shows "map_of imported ch =
           (case find (\<lambda>c. channel c = Some ch \<and> valid_record r c) (rev cs) of
              Some v \<Rightarrow> Some (as_imported v)
            | None \<Rightarrow> map_of acc ch)"
  using assms
proof (induction cs arbitrary: n acc ws)
  case Nil
  then show ?case by simp
next
  case (Cons x xs)
  have clean: "clean_text x" "\<forall>c \<in> set xs. clean_text c" using Cons.prems(1) by auto
  let ?P = "\<lambda>c. channel c = Some ch \<and> valid_record r c"
  have f: "find ?P (rev (x # xs)) =
             (case find ?P (rev xs) of None \<Rightarrow> (if ?P x then Some x else None) | Some v \<Rightarrow> Some v)"
    by (cases "find ?P (rev xs)") (simp_all add: find_append)
  show ?case
  proof (cases "import_row r (Suc n) (export_row x)")
    case (Skipped w)
    have nv: "\<not> valid_record r x"
      using import_row_export_valid [OF clean(1), of r "Suc n"] Skipped by auto
    from Skipped Cons.prems(2)
    have "import_rows r (Suc n) (map export_row xs) acc (ws @ w) = ([], imported, ws')" by simp
    from Cons.IH [OF clean(2) this] show ?thesis
      unfolding f using nv by (simp split: option.splits)
  next
    case (Stored ch0 d0 w)
    have s: "channel x = Some ch0" "d0 = as_imported x"
      using import_row_export_stored [OF clean(1) Stored] by simp_all
    have v: "valid_record r x" using import_row_export_stored_valid [OF clean(1) Stored] .
    from Stored Cons.prems(2)
    have "import_rows r (Suc n) (map export_row xs) (AList.update ch0 d0 acc) (ws @ w)
            = ([], imported, ws')" by simp
    from Cons.IH [OF clean(2) this] show ?thesis
      unfolding f using s v by (auto simp: update_conv' split: option.splits)
  next
    case (Crashed w)
    with Cons.prems(2) show ?thesis by simp
  qed
qed

lemma import_rows_distinct:
  "import_rows r n rows acc ws = (errs, imported, ws') \<Longrightarrow> distinct (map fst acc) \<Longrightarrow>
   distinct (map fst imported)"
proof (induction rows arbitrary: n acc ws)
  case Nil
  then show ?case by simp
next
  case (Cons row rows)
  then show ?case
    by (cases "import_row r (Suc n) row") (auto simp: distinct_update)
qed

lemma find_filter: "\<forall>x. P x \<longrightarrow> K x \<Longrightarrow> find P (filter K xs) = find P xs"
  by (induction xs) auto

lemma find_sorted_channels:
  "find (\<lambda>c. channel c = Some ch \<and> Q c) (rev (sort_key channel_key xs))
     = find (\<lambda>c. channel c = Some ch \<and> Q c) (rev xs)"
proof -
  let ?P = "\<lambda>c. channel c = Some ch \<and> Q c"
  let ?K = "\<lambda>c. channel_key c = (0, ch)"
  have pk: "\<forall>x. ?P x \<longrightarrow> ?K x" by (simp add: channel_key_def)
  have "find ?P (rev (sort_key channel_key xs))
          = find ?P (filter ?K (rev (sort_key channel_key xs)))"
    using find_filter [OF pk] by simp
  also have "\<dots> = find ?P (rev (filter ?K (sort_key channel_key xs)))"
    by (simp add: rev_filter)
  also have "\<dots> = find ?P (rev (filter ?K xs))"
    by (simp only: sort_key_stable)
  also have "\<dots> = find ?P (filter ?K (rev xs))" by (simp add: rev_filter)
  also have "\<dots> = find ?P (rev xs)" using find_filter [OF pk] by simp
  finally show ?thesis .
qed

lemma find_Some_holds: "find P xs = Some v \<Longrightarrow> P v \<and> v \<in> set xs"
  by (induction xs) (auto split: if_splits)

lemma find_stronger:
  "find Q ys = Some l \<Longrightarrow> P l \<Longrightarrow> \<forall>y. P y \<longrightarrow> Q y \<Longrightarrow> find P ys = Some l"
  by (induction ys) (auto split: if_splits)

text \<open>
  Claim C3 (as amended). Take a loaded configuration whose PI and PS texts are what the
  import's sanitising leaves unchanged (no leading or trailing whitespace, at most 4 and 8
  characters, the PI ASCII text), and in which a channel number that has a valid record has
  its last record valid. Exporting it to CSV and importing that CSV against the same
  configuration gives an empty write list. When the number of memory positions is known the
  import reads the CSV to its end without an error. Every record that is valid for the
  session (channel within 1 and the number of memory positions, frequency and bandwidth
  code not negative, mono/stereo code 0 or 1, not channel 1 with a skip frequency) and is
  the last of its channel number comes back from the import under its channel number with
  the same numbers, its PI in upper case and its PS, an absent PI or PS as the empty text.
  When the number of memory positions is not known no record is valid, and the write list
  is empty because the import stops with an error or accepts no row.
\<close>

theorem csv_round_trip:
  assumes "\<forall>c \<in> set (channels cfg). clean_text c"
    and "last_valid r cfg"
    and "export_csv_worker (Some cfg) = Inr csv"
  shows "fst (import_csv_thread_worker r cfg csv) = []
       \<and> (\<forall>m. max_channels r = Some m \<longrightarrow>
             (\<exists>imported ws. parse_csv r csv = ([], imported, ws)))
       \<and> (\<forall>pre c post.
             channels cfg = pre @ c # post \<and> valid_record r c
             \<and> (\<forall>x \<in> set post. channel x \<noteq> channel c) \<longrightarrow>
             (\<exists>ch imported ws. channel c = Some ch \<and> parse_csv r csv = ([], imported, ws)
                 \<and> map_of imported ch = Some (as_imported c)))"
proof -
  define cs where "cs = sort_key channel_key (channels cfg)"
  have csv: "csv = CSV_HEADER # map export_row cs"
    using assms(3) by (simp add: export_csv_worker_def cs_def)
  have set_cs: "set cs = set (channels cfg)" by (simp add: cs_def)
  have clean: "\<forall>c \<in> set cs. clean_text c" using assms(1) set_cs by simp
  obtain errs imported ws where
    rows: "import_rows r 1 (map export_row cs) [] [] = (errs, imported, ws)"
    by (cases "import_rows r 1 (map export_row cs) [] []") auto
  have parse: "parse_csv r csv = (errs, imported, ws)"
    using rows by (simp add: parse_csv_def csv)
  have dist: "distinct (map fst imported)"
    using import_rows_distinct [OF rows] by simp
  have look: "map_of imported ch =
           (case find (\<lambda>c. channel c = Some ch \<and> valid_record r c) (rev (channels cfg)) of
              Some v \<Rightarrow> Some (as_imported v) | None \<Rightarrow> None)"
    if "errs = []" for ch
    using import_rows_last_valid [OF clean rows [unfolded that], of ch]
    unfolding cs_def find_sorted_channels by (simp split: option.splits)
  have none: "\<not> needs_write r ch d (current_channels_dict cfg ch)"
    if e: "errs = []" and m: "(ch, d) \<in> set imported" for ch d
  proof -
    from m dist have "map_of imported ch = Some d" by simp
    with look [OF e, of ch] obtain v where
      v: "find (\<lambda>c. channel c = Some ch \<and> valid_record r c) (rev (channels cfg)) = Some v"
      and d: "d = as_imported v"
      by (cases "find (\<lambda>c. channel c = Some ch \<and> valid_record r c) (rev (channels cfg))")
         simp_all
    from v have pv: "channel v = Some ch" "valid_record r v" "v \<in> set (channels cfg)"
      using find_Some_holds [OF v] by simp_all
    from assms(2) pv obtain l where
      l: "find (\<lambda>x. channel x = Some ch) (rev (channels cfg)) = Some l" "valid_record r l"
      unfolding last_valid_def by blast
    from find_Some_holds [OF l(1)] have "channel l = Some ch" by simp
    then have "find (\<lambda>c. channel c = Some ch \<and> valid_record r c) (rev (channels cfg)) = Some l"
      using l(2) by (intro find_stronger [OF l(1)]) simp_all
    with v have "l = v" by simp
    with l(1) have "current_channels_dict cfg ch = Some v"
      by (simp add: current_channels_dict_find)
    then show ?thesis using d by (simp add: needs_write_as_imported)
  qed
  have 1: "fst (import_csv_thread_worker r cfg csv) = []"
  proof (cases "errs = []")
    case True
    have "filter (\<lambda>(ch_num, imp_data).
                 needs_write r ch_num imp_data (current_channels_dict cfg ch_num)) imported = []"
      using none [OF True] by (auto simp: filter_empty_conv)
    then show ?thesis by (simp add: import_csv_thread_worker_def parse)
  next
    case False
    then show ?thesis by (simp add: import_csv_thread_worker_def parse)
  qed
  have 2: "\<exists>ch imported ws. channel c = Some ch \<and> parse_csv r csv = ([], imported, ws)
                \<and> map_of imported ch = Some (as_imported c)"
    if c: "channels cfg = pre @ c # post" "valid_record r c"
          "\<forall>x \<in> set post. channel x \<noteq> channel c" for pre c post
  proof -
    from c(2) obtain ch m where ch: "channel c = Some ch" and m: "max_channels r = Some m"
      by (auto simp: valid_record_def)
    have e: "errs = []" using import_rows_no_crash [OF m rows] .
    have "find (\<lambda>x. channel x = Some ch \<and> valid_record r x) (rev (channels cfg)) = Some c"
    proof (rule find_last [OF c(1)])
      show "channel c = Some ch \<and> valid_record r c" using ch c(2) by simp
      show "\<forall>y \<in> set post. \<not> (channel y = Some ch \<and> valid_record r y)"
        using c(3) ch by simp
    qed
    with look [OF e, of ch] have "map_of imported ch = Some (as_imported c)" by simp
    with ch parse e show ?thesis by blast
  qed
  show ?thesis
  proof (intro conjI allI impI)
    show "fst (import_csv_thread_worker r cfg csv) = []" by (rule 1)
  next
    fix m
    assume "max_channels r = Some m"
    from import_rows_no_crash [OF this rows] parse
    show "\<exists>imported ws. parse_csv r csv = ([], imported, ws)" by simp
  next
    fix pre c post
    assume "channels cfg = pre @ c # post \<and> valid_record r c
             \<and> (\<forall>x \<in> set post. channel x \<noteq> channel c)"
    then show "\<exists>ch imported ws. channel c = Some ch \<and> parse_csv r csv = ([], imported, ws)
                 \<and> map_of imported ch = Some (as_imported c)"
      using 2 [of pre c post] by simp
  qed
qed

lemmas eval_export = export_csv_worker_def example_channel_def channel_key_def
  export_row_def cell_int_def cell_text_def

theorem csv_round_trip_witness:
  "export_csv_worker (Some doubled_config)
     = Inr [CSV_HEADER, [''2'', ''9000'', ''0'', ''1'', [], []],
            [''2'', ''9100'', ''0'', ''1'', [], []]]
   \<and> list_all clean_text (channels doubled_config)
   \<and> last_valid (session_after_read doubled_config) doubled_config
   \<and> fst (import_csv_thread_worker (session_after_read doubled_config) doubled_config
            [CSV_HEADER, [''2'', ''9000'', ''0'', ''1'', [], []],
             [''2'', ''9100'', ''0'', ''1'', [], []]]) = []
   \<and> channels doubled_config = [example_channel 2 9000] @ example_channel 2 9100 # []
   \<and> valid_record (session_after_read doubled_config) (example_channel 2 9100)
   \<and> (\<exists>imported ws.
         parse_csv (session_after_read doubled_config)
           [CSV_HEADER, [''2'', ''9000'', ''0'', ''1'', [], []],
            [''2'', ''9100'', ''0'', ''1'', [], []]] = ([], imported, ws)
         \<and> map_of imported 2 = Some (as_imported (example_channel 2 9100)))"
proof -
  let ?r = "session_after_read doubled_config"
  let ?csv = "[CSV_HEADER, [''2'', ''9000'', ''0'', ''1'', [], []],
               [''2'', ''9100'', ''0'', ''1'', [], []]]"
  have e: "export_csv_worker (Some doubled_config) = Inr ?csv"
    by (simp add: doubled_config_def eval_export eval_text)
  have c: "\<forall>c \<in> set (channels doubled_config). clean_text c"
    by (simp add: doubled_config_def example_channel_def clean_text_def ascii_def
          text_or_empty_def strip_def)
  have v: "\<And>f. 0 \<le> f \<Longrightarrow> valid_record ?r (example_channel 2 f)"
    by (simp add: valid_record_def session_after_read_def doubled_config_def
          example_channel_def)
  have cs: "channels doubled_config = [example_channel 2 9000] @ example_channel 2 9100 # []"
    by (simp add: doubled_config_def)
  have k: "\<And>f. channel (example_channel 2 f) = Some 2" by (simp add: example_channel_def)
  have l: "last_valid ?r doubled_config"
    unfolding last_valid_def cs using v [of 9100] by (simp add: k)
  have p: "\<forall>x \<in> set []. channel x \<noteq> channel (example_channel 2 9100)" by simp
  note t = csv_round_trip [OF c l e]
  note t1 = t [THEN conjunct1]
  note t3 = t [THEN conjunct2, THEN conjunct2, rule_format,
               of "[example_channel 2 9000]" "example_channel 2 9100" "[]"]
  from t3 cs v [of 9100] p obtain ch imported ws where
    "channel (example_channel 2 9100) = Some ch"
    "parse_csv ?r ?csv = ([], imported, ws)"
    "map_of imported ch = Some (as_imported (example_channel 2 9100))"
    by auto
  with k [of 9100] have 2: "\<exists>imported ws. parse_csv ?r ?csv = ([], imported, ws)
         \<and> map_of imported 2 = Some (as_imported (example_channel 2 9100))"
    by auto
  from c have 3: "list_all clean_text (channels doubled_config)"
    by (simp add: list_all_iff)
  from e 3 l t1 cs v [of 9100] 2 show ?thesis by simp
qed

text \<open>
  Claim C3 as it is stated fails in two ways. A PS with a leading blank, as the reader
  stores it from the line \<open>2,9000,0,1,ABCD, RADIO\<close>, is trimmed by the import and then
  differs from the live PS, so the unchanged CSV asks for a write. And where the device sent
  two rows for one channel, the second of them invalid (a negative frequency), the import
  keeps the first while the live lookup keeps the second, so again a write is asked for.
\<close>

theorem csv_round_trip_counterexample:
  "export_csv_worker (Some padded_config)
     = Inr [CSV_HEADER, [''2'', ''9000'', ''0'', ''1'', ''ABCD'', '' RADIO'']]
   \<and> fst (import_csv_thread_worker (session_after_read padded_config) padded_config
            [CSV_HEADER, [''2'', ''9000'', ''0'', ''1'', ''ABCD'', '' RADIO'']])
       = [(example_channel 2 9000)\<lparr>pi := Some ''ABCD'', ps := Some ''RADIO''\<rparr>]
   \<and> export_csv_worker (Some repeated_config)
       = Inr [CSV_HEADER, [''2'', ''9000'', ''0'', ''1'', [], []],
              [''2'', ''-5'', ''0'', ''1'', [], []]]
   \<and> fst (import_csv_thread_worker (session_after_read repeated_config) repeated_config
            [CSV_HEADER, [''2'', ''9000'', ''0'', ''1'', [], []],
             [''2'', ''-5'', ''0'', ''1'', [], []]])
       = [(example_channel 2 9000)\<lparr>pi := Some [], ps := Some []\<rparr>]"
proof -
  have 1: "export_csv_worker (Some padded_config)
     = Inr [CSV_HEADER, [''2'', ''9000'', ''0'', ''1'', ''ABCD'', '' RADIO'']]"
    by (simp add: padded_config_def eval_export eval_text)
  have 2: "fst (import_csv_thread_worker (session_after_read padded_config) padded_config
            [CSV_HEADER, [''2'', ''9000'', ''0'', ''1'', ''ABCD'', '' RADIO'']])
       = [(example_channel 2 9000)\<lparr>pi := Some ''ABCD'', ps := Some ''RADIO''\<rparr>]"
    by code_simp
  have 3: "export_csv_worker (Some repeated_config)
       = Inr [CSV_HEADER, [''2'', ''9000'', ''0'', ''1'', [], []],
              [''2'', ''-5'', ''0'', ''1'', [], []]]"
    by (simp add: repeated_config_def eval_export eval_text)
  have 4: "fst (import_csv_thread_worker (session_after_read repeated_config) repeated_config
            [CSV_HEADER, [''2'', ''9000'', ''0'', ''1'', [], []],
             [''2'', ''-5'', ''0'', ''1'', [], []]])
       = [(example_channel 2 9000)\<lparr>pi := Some [], ps := Some []\<rparr>]"
    by code_simp
  from 1 2 3 4 show ?thesis by blast
qed


end
